theory Spec2Isabelle
  imports Complex_Main
begin

section \<open>Numbers, vectors and errors\<close>

text \<open>
  The Python code computes with IEEE floating point numbers inside numpy arrays and torch
  tensors. The embedding reads every finite float as the real number it stands for and
  every operation as the exact one, so rounding, overflow and the width of a float
  (float32 against float64) are outside of the model. The not-a-number of the source is
  kept: a scalar is a \<open>real option\<close> and \<open>None\<close> is NaN. A coordinate is a triple of reals,
  or \<open>None\<close> when the array holds NaN. In exact arithmetic the only NaN that real inputs
  produce in this code is the \<open>0 / 0\<close> of \<open>unit_vec\<close> on the zero vector, and there all
  three components are NaN and stay so through \<open>cross\<close>, \<open>dot\<close> and \<open>+\<close>.
\<close>

datatype py_error = IndexError | AssertionError | KeyError

type_synonym pyfloat = "real option"

type_synonym vec3 = "real \<times> real \<times> real"

type_synonym point = "vec3 option"

type_synonym mat3 = "vec3 \<times> vec3 \<times> vec3"

fun vsub :: "vec3 \<Rightarrow> vec3 \<Rightarrow> vec3" where
  "vsub (x1, y1, z1) (x2, y2, z2) = (x1 - x2, y1 - y2, z1 - z2)"

fun vadd :: "vec3 \<Rightarrow> vec3 \<Rightarrow> vec3" where
  "vadd (x1, y1, z1) (x2, y2, z2) = (x1 + x2, y1 + y2, z1 + z2)"

fun vdiv :: "vec3 \<Rightarrow> real \<Rightarrow> vec3" where
  "vdiv (x, y, z) r = (x / r, y / r, z / r)"

fun dot3 :: "vec3 \<Rightarrow> vec3 \<Rightarrow> real" where
  "dot3 (x1, y1, z1) (x2, y2, z2) = x1 * x2 + y1 * y2 + z1 * z2"

text \<open>\<open>np.linalg.norm\<close> and \<open>torch.linalg.norm\<close> of a vector: the Euclidean norm.\<close>

definition linalg_norm :: "vec3 \<Rightarrow> real" where
  "linalg_norm x = sqrt (dot3 x x)"

text \<open>\<open>np.cross\<close> and \<open>torch.cross\<close> of two 3-vectors.\<close>

fun cross :: "vec3 \<Rightarrow> vec3 \<Rightarrow> vec3" where
  "cross (a1, a2, a3) (b1, b2, b3) =
     (a2 * b3 - a3 * b2, a3 * b1 - a1 * b3, a1 * b2 - a2 * b1)"

text \<open>
  \<open>unit_vec = lambda x: x / np.linalg.norm(x)\<close>. Neither numpy nor torch raises on a
  zero norm: the quotient is \<open>0 / 0\<close>, NaN in every component.
\<close>

definition unit_vec :: "vec3 \<Rightarrow> point" where
  "unit_vec x = (if linalg_norm x = 0 then None else Some (vdiv x (linalg_norm x)))"

text \<open>\<open>stack([bc, nbc, n])\<close> has the three vectors as rows; \<open>.T\<close> transposes.\<close>

definition stack3 :: "vec3 \<Rightarrow> vec3 \<Rightarrow> vec3 \<Rightarrow> mat3" where
  "stack3 r1 r2 r3 = (r1, r2, r3)"

fun transpose3 :: "mat3 \<Rightarrow> mat3" where
  "transpose3 ((a11, a12, a13), (a21, a22, a23), (a31, a32, a33)) =
     ((a11, a21, a31), (a12, a22, a32), (a13, a23, a33))"

text \<open>\<open>m.dot(d)\<close> of the numpy branch: a matrix times a vector.\<close>

fun dot_mv :: "mat3 \<Rightarrow> vec3 \<Rightarrow> vec3" where
  "dot_mv (r1, r2, r3) v = (dot3 r1 v, dot3 r2 v, dot3 r3 v)"

text \<open>
  The torch branch builds a tensor of shape (3, 1) with \<open>torch.vstack\<close>, multiplies with
  \<open>torch.mm\<close> and drops the axis of length one with \<open>squeeze\<close>.
\<close>

datatype colmat = Col real real real

definition vstack :: "real \<Rightarrow> real \<Rightarrow> real \<Rightarrow> colmat" where
  "vstack x y z = Col x y z"

fun mm :: "mat3 \<Rightarrow> colmat \<Rightarrow> colmat" where
  "mm ((a11, a12, a13), (a21, a22, a23), (a31, a32, a33)) (Col x y z) =
     Col (a11 * x + a12 * y + a13 * z)
         (a21 * x + a22 * y + a23 * z)
         (a31 * x + a32 * y + a33 * z)"

fun squeeze_col :: "colmat \<Rightarrow> vec3" where
  "squeeze_col (Col x y z) = (x, y, z)"

section \<open>The placement primitive (nerf.py, place_dihedral)\<close>

text \<open>
  The arguments keep the order of the source. A NaN among the points or the scalars makes
  every component of the result NaN, since each row of \<open>m.dot(d)\<close> adds a multiple of
  every column of \<open>m\<close> and of every entry of \<open>d\<close>.
  In tensor mode \<open>ensure_tensor\<close> makes tensors of the arguments, float32 ones of Python
  floats, and \<open>.type(m.dtype)\<close> casts the offset to the type of the frame. Both act on
  the width of the floats, which an embedding over the real numbers does not have: here
  the two branches differ in the form of the matrix product alone, and nothing is
  stated about how far apart the floats of the two modes are.
\<close>

definition place_dihedral ::
  "point \<Rightarrow> point \<Rightarrow> point \<Rightarrow> pyfloat \<Rightarrow> pyfloat \<Rightarrow> pyfloat \<Rightarrow> bool \<Rightarrow> point" where
  "place_dihedral a b c bond_angle bond_length torsion_angle use_torch =
     (case (a, b, c, bond_angle, bond_length, torsion_angle) of
        (Some a, Some b, Some c, Some bond_angle, Some bond_length, Some torsion_angle) \<Rightarrow>
          (let ab = vsub b a in
           case unit_vec (vsub c b) of
             None \<Rightarrow> None
           | Some bc \<Rightarrow>
             (case unit_vec (cross ab bc) of
                None \<Rightarrow> None
              | Some n \<Rightarrow>
                 (let nbc = cross n bc;
                      m = transpose3 (stack3 bc nbc n);
                      d = (if \<not> use_torch then
                             dot_mv m
                               (- bond_length * cos bond_angle,
                                bond_length * cos torsion_angle * sin bond_angle,
                                bond_length * sin torsion_angle * sin bond_angle)
                           else
                             squeeze_col (mm m
                               (vstack (- bond_length * cos bond_angle)
                                  (bond_length * cos torsion_angle * sin bond_angle)
                                  (bond_length * sin torsion_angle * sin bond_angle))))
                  in Some (vadd d c))))
      | _ \<Rightarrow> None)"

section \<open>The chain builder (nerf.py, NERFBuilder)\<close>

definition N_CA_LENGTH :: real where "N_CA_LENGTH = 146 / 100"
definition CA_C_LENGTH :: real where "CA_C_LENGTH = 154 / 100"
definition C_N_LENGTH :: real where "C_N_LENGTH = 134 / 100"

definition N_INIT :: "real list" where "N_INIT = [17047 / 1000, 14099 / 1000, 3625 / 1000]"
definition CA_INIT :: "real list" where "CA_INIT = [16967 / 1000, 12784 / 1000, 4338 / 1000]"
definition C_INIT :: "real list" where "C_INIT = [15685 / 1000, 12755 / 1000, 5133 / 1000]"

text \<open>
  The dihedral sequences come as numpy arrays or as torch tensors of one axis; the
  builder works in tensor mode as soon as one of the three is a tensor.
\<close>

datatype angles_in = NpArray "pyfloat list" | TorchTensor "pyfloat list"

fun is_tensor :: "angles_in \<Rightarrow> bool" where
  "is_tensor (NpArray xs) = False"
| "is_tensor (TorchTensor xs) = True"

fun entries :: "angles_in \<Rightarrow> pyfloat list" where
  "entries (NpArray xs) = xs"
| "entries (TorchTensor xs) = xs"

text \<open>
  \<open>squeeze()\<close> removes every axis of length one: an array of a single entry becomes an
  array of no axis at all, which can be neither sliced nor iterated.
\<close>

datatype ndarray = Array0 pyfloat | Array1 "pyfloat list"

definition squeeze :: "pyfloat list \<Rightarrow> ndarray" where
  "squeeze xs = (case xs of [x] \<Rightarrow> Array0 x | _ \<Rightarrow> Array1 xs)"

text \<open>The slices \<open>x[1:]\<close> and \<open>x[:-1]\<close>; on an array without axis both raise IndexError.\<close>

fun slice_from_1 :: "ndarray \<Rightarrow> py_error + pyfloat list" where
  "slice_from_1 (Array0 x) = Inl IndexError"
| "slice_from_1 (Array1 xs) = Inr (drop 1 xs)"

fun slice_to_last :: "ndarray \<Rightarrow> py_error + pyfloat list" where
  "slice_to_last (Array0 x) = Inl IndexError"
| "slice_to_last (Array1 xs) = Inr (butlast xs)"

text \<open>
  The keys of the two bond tables, \<open>("C", "N")\<close>, \<open>("N", "CA")\<close> and \<open>("CA", "C")\<close>, and
  their values: a float, or an array indexed by the residue.
\<close>

datatype bond = C_N | N_CA | CA_C

datatype bond_value = FloatVal pyfloat | ArrayVal "pyfloat list"

text \<open>A dict keeps the order of insertion, which the inner loop iterates: an association list.\<close>

record nerf_builder =
  use_torch :: bool
  phi :: ndarray
  psi :: ndarray
  omega :: ndarray
  bond_lengths :: "(bond \<times> bond_value) list"
  bond_angles :: "(bond \<times> bond_value) list"
  init_coords :: "point list"

fun to_point :: "real list \<Rightarrow> point" where
  "to_point [x, y, z] = Some (x, y, z)"
| "to_point c = None"

text \<open>
  \<open>__init__\<close>. The two assertions on the initial coordinates are the only validation;
  the lengths of the dihedral sequences and of the bond arrays are not looked at.
\<close>

definition NERFBuilder ::
  "angles_in \<Rightarrow> angles_in \<Rightarrow> angles_in \<Rightarrow>
   bond_value \<Rightarrow> bond_value \<Rightarrow> bond_value \<Rightarrow> bond_value \<Rightarrow> bond_value \<Rightarrow> bond_value \<Rightarrow>
   real list list \<Rightarrow> py_error + nerf_builder" where
  "NERFBuilder phi_dihedrals psi_dihedrals omega_dihedrals
     bond_len_n_ca bond_len_ca_c bond_len_c_n
     bond_angle_n_ca bond_angle_ca_c bond_angle_c_n init =
     (if length init \<noteq> 3 then Inl AssertionError
      else if \<not> list_all (\<lambda>c. length c = 3) init then Inl AssertionError
      else Inr
        \<lparr>use_torch = list_ex is_tensor [phi_dihedrals, psi_dihedrals, omega_dihedrals],
         phi = squeeze (entries phi_dihedrals),
         psi = squeeze (entries psi_dihedrals),
         omega = squeeze (entries omega_dihedrals),
         bond_lengths = [(C_N, bond_len_c_n), (N_CA, bond_len_n_ca), (CA_C, bond_len_ca_c)],
         bond_angles = [(C_N, bond_angle_c_n), (N_CA, bond_angle_n_ca), (CA_C, bond_angle_ca_c)],
         init_coords = map to_point init\<rparr>)"

text \<open>The constructor with every default argument of the source.\<close>

definition NERFBuilder_default :: "angles_in \<Rightarrow> angles_in \<Rightarrow> angles_in \<Rightarrow> py_error + nerf_builder" where
  "NERFBuilder_default phi_dihedrals psi_dihedrals omega_dihedrals =
     NERFBuilder phi_dihedrals psi_dihedrals omega_dihedrals
       (FloatVal (Some N_CA_LENGTH)) (FloatVal (Some CA_C_LENGTH)) (FloatVal (Some C_N_LENGTH))
       (FloatVal (Some (121 / 180 * pi))) (FloatVal (Some (109 / 180 * pi)))
       (FloatVal (Some (115 / 180 * pi)))
       [N_INIT, CA_INIT, C_INIT]"

text \<open>\<open>_get_bond_length\<close> and \<open>_get_bond_angle\<close>; \<open>idx\<close> comes from \<open>enumerate\<close>.\<close>

definition get_bond_length :: "nerf_builder \<Rightarrow> bond \<Rightarrow> nat \<Rightarrow> py_error + pyfloat" where
  "get_bond_length self bond idx =
     (case map_of (bond_lengths self) bond of
        None \<Rightarrow> Inl KeyError
      | Some (FloatVal v) \<Rightarrow> Inr v
      | Some (ArrayVal v) \<Rightarrow> (if idx < length v then Inr (v ! idx) else Inl IndexError))"

definition get_bond_angle :: "nerf_builder \<Rightarrow> bond \<Rightarrow> nat \<Rightarrow> py_error + pyfloat" where
  "get_bond_angle self bond idx =
     (case map_of (bond_angles self) bond of
        None \<Rightarrow> Inl KeyError
      | Some (FloatVal v) \<Rightarrow> Inr v
      | Some (ArrayVal v) \<Rightarrow> (if idx < length v then Inr (v ! idx) else Inl IndexError))"

text \<open>
  The inner loop \<open>for bond, dih in zip(self.bond_lengths.keys(), [psi, omega, phi])\<close>:
  \<open>retval[-3]\<close>, \<open>retval[-2]\<close> and \<open>retval[-1]\<close> are read first, then the bond angle, then
  the bond length, and the placed atom is appended.
\<close>

fun place_atoms ::
  "nerf_builder \<Rightarrow> nat \<Rightarrow> (bond \<times> pyfloat) list \<Rightarrow> point list \<Rightarrow> py_error + point list" where
  "place_atoms self i [] retval = Inr retval"
| "place_atoms self i ((bond, dih) # rest) retval =
     (if length retval < 3 then Inl IndexError
      else
        case get_bond_angle self bond i of
          Inl e \<Rightarrow> Inl e
        | Inr bond_angle \<Rightarrow>
          (case get_bond_length self bond i of
             Inl e \<Rightarrow> Inl e
           | Inr bond_length \<Rightarrow>
              (let coords = place_dihedral
                     (retval ! (length retval - 3))
                     (retval ! (length retval - 2))
                     (retval ! (length retval - 1))
                     bond_angle bond_length dih (use_torch self)
               in place_atoms self i rest (retval @ [coords]))))"

text \<open>The outer loop \<open>for i, (phi, psi, omega) in enumerate(zip(...))\<close>.\<close>

fun build_residues ::
  "nerf_builder \<Rightarrow> nat \<Rightarrow> (pyfloat \<times> pyfloat \<times> pyfloat) list \<Rightarrow> point list \<Rightarrow>
   py_error + point list" where
  "build_residues self i [] retval = Inr retval"
| "build_residues self i ((ph, ps, om) # rest) retval =
     (case place_atoms self i (zip (map fst (bond_lengths self)) [ps, om, ph]) retval of
        Inl e \<Rightarrow> Inl e
      | Inr retval' \<Rightarrow> build_residues self (Suc i) rest retval')"

text \<open>
  \<open>cartesian_coords\<close>. \<open>zip\<close> of three sequences stops with the shortest one; the copy
  into tensors and the final \<open>np.array\<close> or \<open>torch.stack\<close> keep the values.
\<close>

definition cartesian_coords :: "nerf_builder \<Rightarrow> py_error + point list" where
  "cartesian_coords self =
     (let retval = init_coords self in
      case slice_from_1 (phi self) of
        Inl e \<Rightarrow> Inl e
      | Inr phis \<Rightarrow>
        (case slice_to_last (psi self) of
           Inl e \<Rightarrow> Inl e
         | Inr psis \<Rightarrow>
           (case slice_to_last (omega self) of
              Inl e \<Rightarrow> Inl e
            | Inr omegas \<Rightarrow> build_residues self 0 (zip phis (zip psis omegas)) retval)))"

text \<open>
  \<open>centered_cartesian_coords\<close>: \<open>mean(axis=0)\<close> is NaN on every axis that holds a NaN (in
  the model: as soon as one coordinate is NaN) and on an empty array; the difference with
  a NaN is NaN.
\<close>

definition mean_axis0 :: "point list \<Rightarrow> point" where
  "mean_axis0 ps =
     (if ps = [] \<or> \<not> list_all (\<lambda>p. p \<noteq> None) ps then None
      else Some (vdiv (foldr vadd (map the ps) (0, 0, 0)) (real (length ps))))"

fun psub :: "point \<Rightarrow> point \<Rightarrow> point" where
  "psub (Some p) (Some q) = Some (vsub p q)"
| "psub p q = None"

definition centered_cartesian_coords :: "nerf_builder \<Rightarrow> py_error + point list" where
  "centered_cartesian_coords self =
     (case cartesian_coords self of
        Inl e \<Rightarrow> Inl e
      | Inr coords \<Rightarrow> (let means = mean_axis0 coords in Inr (map (\<lambda>p. psub p means) coords)))"

section \<open>Internal coordinates of a structure (angles_to_coords.py)\<close>

text \<open>
  \<open>canonical_distances_and_dihedrals\<close> reads a structure through the Bio.PDB library,
  which is not part of the repository. The model takes what the library hands over: the
  chains of the parsed structure, and for each chain the names of its residues, the
  outcome of \<open>structure_rebuild_test\<close> and the list \<open>ordered_aa_ic_list\<close>. An entry of
  that list answers \<open>get_length\<close> and \<open>get_angle\<close> (in degrees) with a float or with
  Python's \<open>None\<close>, which \<open>np.array(..., dtype=np.float64)\<close> stores as NaN.
\<close>

record ic_residue =
  ic_lengths :: "(string \<times> real) list"
  ic_angles :: "(string \<times> real) list"

definition get_length :: "ic_residue \<Rightarrow> string \<Rightarrow> pyfloat" where
  "get_length ric d = map_of (ic_lengths ric) d"

definition get_angle :: "ic_residue \<Rightarrow> string \<Rightarrow> pyfloat" where
  "get_angle ric a = map_of (ic_angles ric) a"

record pdb_chain =
  resnames :: "string list"
  rebuild_pass :: bool
  ordered_aa_ic_list :: "ic_residue list"

record data_frame =
  columns :: "string list"
  frame_rows :: "pyfloat list list"

text \<open>\<open>np.nan_to_num\<close> on one entry: NaN becomes 0.0 (the model has no infinities).\<close>

definition nan_to_num :: "pyfloat \<Rightarrow> pyfloat" where
  "nan_to_num v = (case v of None \<Rightarrow> Some 0 | Some x \<Rightarrow> Some x)"

text \<open>
  The body of the loop over \<open>ordered_aa_ic_list\<close>: the row of one residue, or the failure
  of the assertion on the range of the angles that are not NaN.
\<close>

definition residue_values ::
  "string list \<Rightarrow> string list \<Rightarrow> bool \<Rightarrow> ic_residue \<Rightarrow> py_error + pyfloat list" where
  "residue_values distances angles use_radians ric =
     (let this_dists = map (get_length ric) distances;
          this_angles = map (get_angle ric) angles
      in if use_radians then
           (let this_angles = map (map_option (\<lambda>a. a / 180 * pi)) this_angles
            in if list_all (\<lambda>a. case a of None \<Rightarrow> True | Some v \<Rightarrow> - pi \<le> v \<and> v \<le> pi) this_angles
               then Inr (this_dists @ this_angles)
               else Inl AssertionError)
         else
           (if list_all (\<lambda>a. case a of None \<Rightarrow> True | Some v \<Rightarrow> - 180 \<le> v \<and> v \<le> 180) this_angles
            then Inr (this_dists @ this_angles)
            else Inl AssertionError))"

fun collect_values ::
  "string list \<Rightarrow> string list \<Rightarrow> bool \<Rightarrow> ic_residue list \<Rightarrow> py_error + pyfloat list list" where
  "collect_values distances angles use_radians [] = Inr []"
| "collect_values distances angles use_radians (ric # rest) =
     (case residue_values distances angles use_radians ric of
        Inl e \<Rightarrow> Inl e
      | Inr row \<Rightarrow>
         (case collect_values distances angles use_radians rest of
            Inl e \<Rightarrow> Inl e
          | Inr rows \<Rightarrow> Inr (row # rows)))"

text \<open>
  The function returns \<open>None\<close> for a structure of several chains and for a chain that
  fails the rebuild test; \<open>chains.pop()\<close> raises on a structure without chain. An empty
  list of rows makes an array of shape \<open>(0,)\<close>, which fails the final assertion on the
  shape, as does a number of rows other than the number of residues kept.
\<close>

definition canonical_distances_and_dihedrals ::
  "pdb_chain list \<Rightarrow> string list \<Rightarrow> string list \<Rightarrow> bool \<Rightarrow> py_error + data_frame option" where
  "canonical_distances_and_dihedrals s_chains distances angles use_radians =
     (if length s_chains > 1 then Inr None
      else if s_chains = [] then Inl IndexError
      else
        (let chain = last s_chains;
             residues = filter (\<lambda>r. r \<notin> set [''HOH'', ''NA'']) (resnames chain)
         in if \<not> rebuild_pass chain then Inr None
            else
              (case collect_values distances angles use_radians (ordered_aa_ic_list chain) of
                 Inl e \<Rightarrow> Inl e
               | Inr values \<Rightarrow>
                  (let retval = map (map nan_to_num) values
                   in if retval = [] \<or> length retval \<noteq> length residues then Inl AssertionError
                      else Inr (Some \<lparr>columns = distances @ angles, frame_rows = retval\<rparr>)))))"

section \<open>One step of sampling (sampling.py, p_sample)\<close>

text \<open>
  The tensors of \<open>p_sample\<close> belong to the torch library and the schedule to the module
  \<open>beta_schedules\<close>; neither is among the sources. The model is written over any type
  of tensors with the operations that \<open>p_sample\<close> calls, so that what is proved holds for
  every behaviour of the library, rounding and infinities included. The time tensor is
  the exception: it is a vector of integers, since \<open>torch.unique\<close>, \<open>len\<close> and \<open>item\<close>
  decide the control flow. The draw of \<open>torch.randn_like\<close> is an argument.
\<close>

record 'T torch =
  torch_sqrt :: "'T \<Rightarrow> 'T"
  torch_rdiv :: "real \<Rightarrow> 'T \<Rightarrow> 'T"
  torch_getitem :: "'T \<Rightarrow> int \<Rightarrow> py_error + 'T"
  torch_sub :: "'T \<Rightarrow> 'T \<Rightarrow> 'T"
  torch_mul :: "'T \<Rightarrow> 'T \<Rightarrow> 'T"
  torch_div :: "'T \<Rightarrow> 'T \<Rightarrow> 'T"
  torch_add :: "'T \<Rightarrow> 'T \<Rightarrow> 'T"
  torch_shape :: "'T \<Rightarrow> nat list"
  torch_zeros :: "nat list \<Rightarrow> 'T"
  torch_setitem :: "'T \<Rightarrow> nat \<Rightarrow> int \<Rightarrow> real \<Rightarrow> py_error + 'T"

text \<open>The entries of the dictionary of \<open>compute_alphas\<close> that \<open>p_sample\<close> reads.\<close>

record 'T alpha_beta =
  alphas :: 'T
  sqrt_one_minus_alphas_cumprod :: 'T
  posterior_variance :: 'T

text \<open>\<open>torch.unique\<close> of a vector: its distinct values, sorted.\<close>

definition unique :: "int list \<Rightarrow> int list" where
  "unique t = remdups (sort t)"

text \<open>The loop \<open>for i, l in enumerate(seq_lens): attn_mask[i, :l] = 1.0\<close>.\<close>

fun fill_mask :: "'T torch \<Rightarrow> nat \<Rightarrow> int list \<Rightarrow> 'T \<Rightarrow> py_error + 'T" where
  "fill_mask T i [] attn_mask = Inr attn_mask"
| "fill_mask T i (l # rest) attn_mask =
     (case torch_setitem T attn_mask i l 1 of
        Inl e \<Rightarrow> Inl e
      | Inr attn_mask' \<Rightarrow> fill_mask T (Suc i) rest attn_mask')"

text \<open>
  \<open>p_sample\<close>. The argument \<open>t_index\<close> is assigned \<open>t_unique.item()\<close> before its first
  use; the \<open>let\<close> below binds the same name again, as the assignment does.
\<close>

definition p_sample ::
  "'T torch \<Rightarrow> ('T \<Rightarrow> 'T alpha_beta) \<Rightarrow> ('T \<Rightarrow> int list \<Rightarrow> 'T \<Rightarrow> 'T) \<Rightarrow>
   'T \<Rightarrow> int list \<Rightarrow> int list \<Rightarrow> int \<Rightarrow> 'T \<Rightarrow> 'T \<Rightarrow> py_error + 'T" where
  "p_sample T compute_alphas model x t seq_lens t_index betas randn =
     (let alpha_beta_values = compute_alphas betas;
          sqrt_recip_alphas = torch_rdiv T 1 (torch_sqrt T (alphas alpha_beta_values));
          t_unique = unique t
      in if length t_unique \<noteq> 1 then Inl AssertionError
         else
           (let t_index = hd t_unique in
            case torch_getitem T sqrt_recip_alphas t_index of
              Inl e \<Rightarrow> Inl e
            | Inr sqrt_recip_alphas_t \<Rightarrow>
              (case torch_getitem T betas t_index of
                 Inl e \<Rightarrow> Inl e
               | Inr betas_t \<Rightarrow>
                 (case torch_getitem T (sqrt_one_minus_alphas_cumprod alpha_beta_values) t_index of
                    Inl e \<Rightarrow> Inl e
                  | Inr sqrt_one_minus_alphas_cumprod_t \<Rightarrow>
                    (case fill_mask T 0 seq_lens (torch_zeros T (take 2 (torch_shape T x))) of
                       Inl e \<Rightarrow> Inl e
                     | Inr attn_mask \<Rightarrow>
                       (let model_mean =
                              torch_mul T sqrt_recip_alphas_t
                                (torch_sub T x
                                   (torch_div T (torch_mul T betas_t (model x t attn_mask))
                                      sqrt_one_minus_alphas_cumprod_t))
                        in if t_index = 0 then Inr model_mean
                           else
                             (case torch_getitem T (posterior_variance alpha_beta_values) t_index of
                                Inl e \<Rightarrow> Inl e
                              | Inr posterior_variance_t \<Rightarrow>
                                 (let noise = randn
                                  in Inr (torch_add T model_mean
                                            (torch_mul T (torch_sqrt T posterior_variance_t) noise))))))))))"

section \<open>Notions used to state the properties\<close>

text \<open>Scaling of a vector.\<close>

fun scale :: "real \<Rightarrow> vec3 \<Rightarrow> vec3" where
  "scale r (x, y, z) = (r * x, r * y, r * z)"

text \<open>Three points are not collinear: \<open>(b - a) \<times> (c - b)\<close> is not the zero vector.\<close>

definition non_collinear :: "vec3 \<Rightarrow> vec3 \<Rightarrow> vec3 \<Rightarrow> bool" where
  "non_collinear a b c = (cross (vsub b a) (vsub c b) \<noteq> (0, 0, 0))"

text \<open>
  The point that \<open>place_dihedral\<close> computes from the unit vectors \<open>bc\<close> and \<open>n\<close> of its
  frame: \<open>c\<close> plus the local offset along \<open>bc\<close>, \<open>n \<times> bc\<close> and \<open>n\<close>.
\<close>

definition frame_point :: "vec3 \<Rightarrow> vec3 \<Rightarrow> vec3 \<Rightarrow> real \<Rightarrow> real \<Rightarrow> real \<Rightarrow> vec3" where
  "frame_point bc n c t L s =
     vadd (vadd (vadd (scale (- L * cos t) bc) (scale (L * cos s * sin t) (cross n bc)))
                (scale (L * sin s * sin t) n)) c"

text \<open>
  The atom at position \<open>n\<close> of \<open>coords\<close> is what \<open>place_dihedral\<close> returns on the three
  atoms before it, with the bond angle and the bond length of \<open>bond\<close> at index \<open>i\<close> and the
  torsion \<open>dih\<close>; both table lookups succeed.
\<close>

definition atom_placed ::
  "nerf_builder \<Rightarrow> point list \<Rightarrow> nat \<Rightarrow> bond \<Rightarrow> nat \<Rightarrow> pyfloat \<Rightarrow> bool" where
  "atom_placed self coords n bond i dih =
     (case get_bond_angle self bond i of
        Inl e \<Rightarrow> False
      | Inr ba \<Rightarrow>
         (case get_bond_length self bond i of
            Inl e \<Rightarrow> False
          | Inr bl \<Rightarrow>
              coords ! n = place_dihedral (coords ! (n - 3)) (coords ! (n - 2)) (coords ! (n - 1))
                             ba bl dih (use_torch self)))"

text \<open>The two bond tables have the keys of the constructor, in its order.\<close>

definition standard_keys :: "nerf_builder \<Rightarrow> bool" where
  "standard_keys self =
     (map fst (bond_lengths self) = [C_N, N_CA, CA_C] \<and>
      map fst (bond_angles self) = [C_N, N_CA, CA_C])"

text \<open>
  A table entry covers the indices below \<open>k\<close>: it is a float, or an array of at least
  \<open>k\<close> entries. \<open>tables_cover\<close> says so of every entry of both tables.
\<close>

definition covers :: "bond_value \<Rightarrow> nat \<Rightarrow> bool" where
  "covers v k = (case v of FloatVal x \<Rightarrow> True | ArrayVal xs \<Rightarrow> k \<le> length xs)"

definition tables_cover :: "nerf_builder \<Rightarrow> nat \<Rightarrow> bool" where
  "tables_cover self k = list_all (\<lambda>bv. covers (snd bv) k) (bond_lengths self @ bond_angles self)"

text \<open>
  The number of rounds of the outer loop for dihedral sequences with more than one entry
  or none: the length of \<open>zip(phi[1:], psi[:-1], omega[:-1])\<close>. The slices of an empty
  sequence are empty, and the subtraction of natural numbers gives 0 for it.
\<close>

definition n_placed :: "angles_in \<Rightarrow> angles_in \<Rightarrow> angles_in \<Rightarrow> nat" where
  "n_placed phi_dihedrals psi_dihedrals omega_dihedrals =
     min (length (entries phi_dihedrals) - 1)
       (min (length (entries psi_dihedrals) - 1) (length (entries omega_dihedrals) - 1))"

text \<open>
  The bond and the torsion of the atom at position \<open>n\<close> of the chain, for \<open>n\<close> from 3 on:
  the atoms 3, 4, 5 belong to the residue of index 0, and so on.
\<close>

definition atom_bond :: "nat \<Rightarrow> bond" where
  "atom_bond n = [C_N, N_CA, CA_C] ! (n mod 3)"

definition atom_torsion :: "angles_in \<Rightarrow> angles_in \<Rightarrow> angles_in \<Rightarrow> nat \<Rightarrow> pyfloat" where
  "atom_torsion phi_dihedrals psi_dihedrals omega_dihedrals n =
     (let i = n div 3 - 1
      in if n mod 3 = 0 then entries psi_dihedrals ! i
         else if n mod 3 = 1 then entries omega_dihedrals ! i
         else entries phi_dihedrals ! (i + 1))"

text \<open>
  A builder that no placement can turn into NaN: the initial coordinates are not
  collinear, and every torsion, bond length and bond angle that the loop reads is finite,
  the bond lengths other than zero and the bond angles of sine other than zero.
\<close>

definition nondegenerate :: "nerf_builder \<Rightarrow> angles_in \<Rightarrow> angles_in \<Rightarrow> angles_in \<Rightarrow> bool" where
  "nondegenerate self phi_dihedrals psi_dihedrals omega_dihedrals =
     ((case init_coords self of
         [Some a, Some b, Some c] \<Rightarrow> non_collinear a b c
       | _ \<Rightarrow> False) \<and>
      (\<forall>i < n_placed phi_dihedrals psi_dihedrals omega_dihedrals.
          entries psi_dihedrals ! i \<noteq> None \<and>
          entries omega_dihedrals ! i \<noteq> None \<and>
          entries phi_dihedrals ! (i + 1) \<noteq> None \<and>
          (\<forall>bond \<in> {C_N, N_CA, CA_C}.
             (case get_bond_length self bond i of Inr (Some L) \<Rightarrow> L \<noteq> 0 | _ \<Rightarrow> False) \<and>
             (case get_bond_angle self bond i of Inr (Some t) \<Rightarrow> sin t \<noteq> 0 | _ \<Rightarrow> False))))"

section \<open>Vector algebra\<close>

lemma lagrange: "dot3 (cross u v) (cross u v) = dot3 u u * dot3 v v - (dot3 u v)\<^sup>2"
  by (cases u; cases v) (simp add: power2_eq_square algebra_simps)

lemma cross_perp_right: "dot3 (cross u v) v = 0"
  by (cases u; cases v) (simp add: algebra_simps)

lemma cross_perp_left: "dot3 (cross u v) u = 0"
  by (cases u; cases v) (simp add: algebra_simps)

lemma dot3_commute: "dot3 u v = dot3 v u"
  by (cases u; cases v) (simp add: algebra_simps)

lemma dot3_nonneg: "0 \<le> dot3 v v"
  by (cases v) simp

lemma dot3_self_zero: "dot3 v v = 0 \<longleftrightarrow> v = (0, 0, 0)"
proof (cases v)
  case (fields x y z)
  have "x * x + y * y + z * z = 0 \<longleftrightarrow> x = 0 \<and> y = 0 \<and> z = 0"
  proof -
    have "0 \<le> x * x + y * y" and "0 \<le> z * z" by simp_all
    then have "x * x + y * y + z * z = 0 \<longleftrightarrow> x * x + y * y = 0 \<and> z * z = 0"
      by (rule add_nonneg_eq_0_iff)
    then show ?thesis by (simp add: sum_squares_eq_zero_iff)
  qed
  with fields show ?thesis by simp
qed

lemma linalg_norm_zero: "linalg_norm v = 0 \<longleftrightarrow> v = (0, 0, 0)"
  unfolding linalg_norm_def using dot3_self_zero dot3_nonneg by simp

lemma linalg_norm_sq: "(linalg_norm v)\<^sup>2 = dot3 v v"
  unfolding linalg_norm_def using dot3_nonneg by simp

lemma linalg_norm_nonneg: "0 \<le> linalg_norm v"
  unfolding linalg_norm_def using dot3_nonneg by simp

lemma dot3_vdiv_left: "dot3 (vdiv u r) v = dot3 u v / r"
  by (cases u; cases v) (simp add: add_divide_distrib)

lemma dot3_vdiv_right: "dot3 u (vdiv v r) = dot3 u v / r"
  by (cases u; cases v) (simp add: add_divide_distrib)

lemma cross_vdiv_right: "cross u (vdiv v r) = vdiv (cross u v) r"
  by (cases u; cases v) (simp add: diff_divide_distrib)

lemma vdiv_zero_iff: "r \<noteq> 0 \<Longrightarrow> vdiv v r = (0, 0, 0) \<longleftrightarrow> v = (0, 0, 0)"
  by (cases v) simp

lemma unit_vec_SomeD:
  assumes "unit_vec x = Some u"
  shows "linalg_norm x \<noteq> 0" and "u = vdiv x (linalg_norm x)" and "dot3 u u = 1"
proof -
  from assms show nz: "linalg_norm x \<noteq> 0" and u: "u = vdiv x (linalg_norm x)"
    by (auto simp: unit_vec_def split: if_splits)
  from nz have "(linalg_norm x)\<^sup>2 \<noteq> 0" by simp
  then have nz2: "dot3 x x \<noteq> 0" by (simp add: linalg_norm_sq)
  have "dot3 u u = dot3 x x / (linalg_norm x)\<^sup>2"
    unfolding u by (simp add: dot3_vdiv_left dot3_vdiv_right power2_eq_square)
  with nz2 show "dot3 u u = 1" by (simp add: linalg_norm_sq)
qed

lemma unit_vec_nonzero: "x \<noteq> (0, 0, 0) \<Longrightarrow> unit_vec x = Some (vdiv x (linalg_norm x))"
  by (simp add: unit_vec_def linalg_norm_zero)

lemma dot_mv_transpose:
  "dot_mv (transpose3 (stack3 u v w)) (x, y, z) = vadd (vadd (scale x u) (scale y v)) (scale z w)"
  by (cases u; cases v; cases w) (simp add: stack3_def)

lemma mm_transpose:
  "squeeze_col (mm (transpose3 (stack3 u v w)) (vstack x y z)) = dot_mv (transpose3 (stack3 u v w)) (x, y, z)"
  by (cases u; cases v; cases w) (simp add: stack3_def vstack_def)

lemma dot3_comb:
  assumes "dot3 u u = 1" "dot3 v v = 1" "dot3 w w = 1" "dot3 u v = 0" "dot3 u w = 0" "dot3 v w = 0"
  shows "dot3 (vadd (vadd (scale x u) (scale y v)) (scale z w)) (vadd (vadd (scale x u) (scale y v)) (scale z w)) = x\<^sup>2 + y\<^sup>2 + z\<^sup>2"
proof -
  obtain u1 u2 u3 where u: "u = (u1, u2, u3)" by (cases u)
  obtain v1 v2 v3 where v: "v = (v1, v2, v3)" by (cases v)
  obtain w1 w2 w3 where w: "w = (w1, w2, w3)" by (cases w)
  have "dot3 (vadd (vadd (scale x u) (scale y v)) (scale z w)) (vadd (vadd (scale x u) (scale y v)) (scale z w))
      = x\<^sup>2 * dot3 u u + y\<^sup>2 * dot3 v v + z\<^sup>2 * dot3 w w + 2 * x * y * dot3 u v + 2 * x * z * dot3 u w + 2 * y * z * dot3 v w"
    unfolding u v w by (simp add: power2_eq_square algebra_simps)
  with assms show ?thesis by simp
qed

lemma dot3_comb_first:
  assumes "dot3 u u = 1" "dot3 u v = 0" "dot3 u w = 0"
  shows "dot3 u (vadd (vadd (scale x u) (scale y v)) (scale z w)) = x"
proof -
  obtain u1 u2 u3 where u: "u = (u1, u2, u3)" by (cases u)
  obtain v1 v2 v3 where v: "v = (v1, v2, v3)" by (cases v)
  obtain w1 w2 w3 where w: "w = (w1, w2, w3)" by (cases w)
  have "dot3 u (vadd (vadd (scale x u) (scale y v)) (scale z w)) = x * dot3 u u + y * dot3 u v + z * dot3 u w"
    unfolding u v w by (simp add: algebra_simps)
  with assms show ?thesis by simp
qed

lemma vsub_vadd_cancel: "vsub (vadd d c) c = d"
  by (cases d; cases c) simp

lemma vsub_swap_norm: "linalg_norm (vsub c d) = linalg_norm (vsub d c)"
  by (cases d; cases c) (simp add: linalg_norm_def power2_eq_square algebra_simps)

lemma spherical_poly:
  fixes L c a b s :: real
  shows "(- L * c)\<^sup>2 + (L * a * s)\<^sup>2 + (L * b * s)\<^sup>2 = L\<^sup>2 * (c\<^sup>2 + (a\<^sup>2 + b\<^sup>2) * s\<^sup>2)"
  by (simp add: power2_eq_square algebra_simps)

lemma spherical_sq:
  fixes L t s :: real
  shows "(- L * cos t)\<^sup>2 + (L * cos s * sin t)\<^sup>2 + (L * sin s * sin t)\<^sup>2 = L\<^sup>2"
proof -
  have "(- L * cos t)\<^sup>2 + (L * cos s * sin t)\<^sup>2 + (L * sin s * sin t)\<^sup>2
        = L\<^sup>2 * ((cos t)\<^sup>2 + ((cos s)\<^sup>2 + (sin s)\<^sup>2) * (sin t)\<^sup>2)"
    by (rule spherical_poly)
  then show ?thesis by simp
qed

section \<open>Geometry of the placement\<close>

lemma place_dihedral_finite:
  "place_dihedral (Some a) (Some b) (Some c) (Some t) (Some L) (Some s) ut =
     (case unit_vec (vsub c b) of
        None \<Rightarrow> None
      | Some bc \<Rightarrow>
         (case unit_vec (cross (vsub b a) bc) of
            None \<Rightarrow> None
          | Some n \<Rightarrow> Some (frame_point bc n c t L s)))"
  by (simp add: place_dihedral_def Let_def mm_transpose dot_mv_transpose frame_point_def
      split: option.splits)

lemma place_dihedral_SomeD:
  assumes "place_dihedral pa pb pc ba bl ta ut = Some d"
  shows "\<exists>a b c t L s. pa = Some a \<and> pb = Some b \<and> pc = Some c \<and> ba = Some t \<and> bl = Some L \<and> ta = Some s"
  using assms by (auto simp: place_dihedral_def split: option.splits)

lemma non_collinear_frame:
  assumes "non_collinear a b c"
  shows "\<exists>bc n. unit_vec (vsub c b) = Some bc \<and> unit_vec (cross (vsub b a) bc) = Some n"
proof -
  from assms have cr: "cross (vsub b a) (vsub c b) \<noteq> (0, 0, 0)" by (simp add: non_collinear_def)
  have "vsub c b \<noteq> (0, 0, 0)"
  proof
    assume "vsub c b = (0, 0, 0)"
    then have "cross (vsub b a) (vsub c b) = (0, 0, 0)" by (cases "vsub b a") simp
    with cr show False by simp
  qed
  then have nz: "linalg_norm (vsub c b) \<noteq> 0" and bc: "unit_vec (vsub c b) = Some (vdiv (vsub c b) (linalg_norm (vsub c b)))"
    by (simp_all add: linalg_norm_zero unit_vec_nonzero)
  from cr nz have "cross (vsub b a) (vdiv (vsub c b) (linalg_norm (vsub c b))) \<noteq> (0, 0, 0)"
    by (simp add: cross_vdiv_right vdiv_zero_iff)
  then have "unit_vec (cross (vsub b a) (vdiv (vsub c b) (linalg_norm (vsub c b)))) \<noteq> None"
    by (simp add: unit_vec_nonzero)
  with bc show ?thesis by auto
qed

lemma frame_collinear:
  assumes "unit_vec (vsub c b) = Some bc" "unit_vec (cross (vsub b a) bc) = Some n"
  shows "non_collinear a b c"
proof -
  from unit_vec_SomeD [OF assms(1)] have nz: "linalg_norm (vsub c b) \<noteq> 0"
    and bc: "bc = vdiv (vsub c b) (linalg_norm (vsub c b))" by simp_all
  from unit_vec_SomeD(1) [OF assms(2)] have "cross (vsub b a) bc \<noteq> (0, 0, 0)"
    by (simp add: linalg_norm_zero)
  with nz show ?thesis
    unfolding bc non_collinear_def by (simp add: cross_vdiv_right vdiv_zero_iff)
qed

lemma frame_orthonormal:
  assumes bc: "unit_vec (vsub c b) = Some bc" and n: "unit_vec (cross ab bc) = Some n"
  shows "dot3 bc bc = 1" "dot3 n n = 1" "dot3 (cross n bc) (cross n bc) = 1"
    "dot3 bc (cross n bc) = 0" "dot3 bc n = 0" "dot3 (cross n bc) n = 0"
proof -
  show u1: "dot3 bc bc = 1" using unit_vec_SomeD(3) [OF bc] .
  show u2: "dot3 n n = 1" using unit_vec_SomeD(3) [OF n] .
  have "dot3 n bc = dot3 (cross ab bc) bc / linalg_norm (cross ab bc)"
    unfolding unit_vec_SomeD(2) [OF n] by (simp add: dot3_vdiv_left)
  then have p: "dot3 n bc = 0" by (simp add: cross_perp_right)
  then show "dot3 bc n = 0" by (simp add: dot3_commute)
  show "dot3 (cross n bc) (cross n bc) = 1" using u1 u2 p by (simp add: lagrange)
  show "dot3 bc (cross n bc) = 0" by (simp add: dot3_commute [of bc] cross_perp_right)
  show "dot3 (cross n bc) n = 0" by (simp add: cross_perp_left)
qed

lemma frame_point_dist:
  assumes bc: "unit_vec (vsub c b) = Some bc" and n: "unit_vec (cross ab bc) = Some n"
  shows "linalg_norm (vsub c (frame_point bc n c t L s)) = \<bar>L\<bar>"
proof -
  note on = frame_orthonormal [OF bc n]
  have "dot3 (vsub (frame_point bc n c t L s) c) (vsub (frame_point bc n c t L s) c)
        = (- L * cos t)\<^sup>2 + (L * cos s * sin t)\<^sup>2 + (L * sin s * sin t)\<^sup>2"
    unfolding frame_point_def vsub_vadd_cancel
    by (rule dot3_comb) (rule on)+
  then have "dot3 (vsub (frame_point bc n c t L s) c) (vsub (frame_point bc n c t L s) c) = L\<^sup>2"
    by (simp only: spherical_sq)
  then have "linalg_norm (vsub (frame_point bc n c t L s) c) = \<bar>L\<bar>"
    by (simp add: linalg_norm_def)
  then show ?thesis by (simp add: vsub_swap_norm)
qed

lemma frame_point_non_collinear:
  assumes bc: "unit_vec (vsub c b) = Some bc" and n: "unit_vec (cross ab bc) = Some n"
    and L: "L \<noteq> 0" and t: "sin t \<noteq> 0"
  shows "non_collinear b c (frame_point bc n c t L s)"
proof -
  note on = frame_orthonormal [OF bc n]
  let ?d = "frame_point bc n c t L s"
  let ?u = "vsub c b" and ?v = "vsub ?d c"
  let ?r = "linalg_norm ?u"
  from unit_vec_SomeD [OF bc] have nz: "?r \<noteq> 0" and bcdef: "bc = vdiv ?u ?r" by simp_all
  have vv: "dot3 ?v ?v = L\<^sup>2"
  proof -
    have "dot3 ?v ?v = (- L * cos t)\<^sup>2 + (L * cos s * sin t)\<^sup>2 + (L * sin s * sin t)\<^sup>2"
      unfolding frame_point_def vsub_vadd_cancel by (rule dot3_comb) (rule on)+
    then show ?thesis by (simp only: spherical_sq)
  qed
  have "dot3 bc ?v = - L * cos t"
    unfolding frame_point_def vsub_vadd_cancel by (rule dot3_comb_first) (rule on)+
  moreover have "dot3 bc ?v = dot3 ?u ?v / ?r"
    by (subst bcdef) (simp add: dot3_vdiv_left)
  ultimately have uv: "dot3 ?u ?v = ?r * (- L * cos t)" using nz by (simp add: field_simps)
  have "dot3 (cross ?u ?v) (cross ?u ?v) = dot3 ?u ?u * L\<^sup>2 - (?r * (- L * cos t))\<^sup>2"
    by (simp only: lagrange vv uv linalg_norm_sq)
  also have "\<dots> = ?r\<^sup>2 * L\<^sup>2 * (1 - (cos t)\<^sup>2)"
    by (simp add: linalg_norm_sq [symmetric] power_mult_distrib algebra_simps)
  also have "\<dots> = ?r\<^sup>2 * L\<^sup>2 * (sin t)\<^sup>2"
    by (simp add: sin_squared_eq)
  finally have "dot3 (cross ?u ?v) (cross ?u ?v) \<noteq> 0" using nz L t by simp
  then have "cross ?u ?v \<noteq> (0, 0, 0)" by (simp add: dot3_self_zero)
  then show ?thesis by (simp add: non_collinear_def)
qed

lemma place_dihedral_non_collinear:
  assumes "non_collinear a b c"
  obtains d where
    "place_dihedral (Some a) (Some b) (Some c) (Some t) (Some L) (Some s) ut = Some d"
    "linalg_norm (vsub c d) = \<bar>L\<bar>"
    "L \<noteq> 0 \<Longrightarrow> sin t \<noteq> 0 \<Longrightarrow> non_collinear b c d"
proof -
  from non_collinear_frame [OF assms] obtain bc n where
    bc: "unit_vec (vsub c b) = Some bc" and n: "unit_vec (cross (vsub b a) bc) = Some n"
    by blast
  show thesis
  proof (rule that [of "frame_point bc n c t L s"])
    show "place_dihedral (Some a) (Some b) (Some c) (Some t) (Some L) (Some s) ut
          = Some (frame_point bc n c t L s)"
      by (simp add: place_dihedral_finite bc n)
    show "linalg_norm (vsub c (frame_point bc n c t L s)) = \<bar>L\<bar>"
      by (rule frame_point_dist [OF bc n])
    show "L \<noteq> 0 \<Longrightarrow> sin t \<noteq> 0 \<Longrightarrow> non_collinear b c (frame_point bc n c t L s)"
      by (rule frame_point_non_collinear [OF bc n])
  qed
qed

lemma place_dihedral_Some_dist:
  assumes "place_dihedral pa pb pc ba bl ta ut = Some d"
  obtains a b c t L s where "pa = Some a" "pb = Some b" "pc = Some c"
    "ba = Some t" "bl = Some L" "ta = Some s" "non_collinear a b c"
    "linalg_norm (vsub c d) = \<bar>L\<bar>"
proof -
  from place_dihedral_SomeD [OF assms] obtain a b c t L s where
    eqs: "pa = Some a" "pb = Some b" "pc = Some c" "ba = Some t" "bl = Some L" "ta = Some s"
    by blast
  from assms obtain bc n where bc: "unit_vec (vsub c b) = Some bc"
    and n: "unit_vec (cross (vsub b a) bc) = Some n" and d: "d = frame_point bc n c t L s"
    unfolding eqs place_dihedral_finite by (auto split: option.splits)
  show thesis
    using eqs frame_collinear [OF bc n] frame_point_dist [OF bc n, of t L s] d
    by (intro that [of a b c t L s]) simp_all
qed

section \<open>The loops of the builder\<close>

lemma length3_conv: "length (ys :: 'a list) = 3 \<Longrightarrow> \<exists>a b c. ys = [a, b, c]"
  by (auto simp: length_Suc_conv numeral_3_eq_3)

lemma last3_split: "3 \<le> length (r :: 'a list) \<Longrightarrow> \<exists>r0 a b c. r = r0 @ [a, b, c]"
proof -
  assume h: "3 \<le> length r"
  from h have "length (drop (length r - 3) r) = 3" by simp
  from length3_conv [OF this] obtain a b c where d: "drop (length r - 3) r = [a, b, c]"
    by blast
  have "take (length r - 3) r @ drop (length r - 3) r = r" by (rule append_take_drop_id)
  then have "r = take (length r - 3) r @ [a, b, c]" unfolding d by (rule sym)
  then show ?thesis by (intro exI)
qed

lemma place_atoms_step:
  "place_atoms self i ((bond, dih) # rest) (r0 @ [a, b, c]) =
     (case get_bond_angle self bond i of
        Inl e \<Rightarrow> Inl e
      | Inr ba \<Rightarrow>
         (case get_bond_length self bond i of
            Inl e \<Rightarrow> Inl e
          | Inr bl \<Rightarrow>
              place_atoms self i rest
                ((r0 @ [a]) @ [b, c, place_dihedral a b c ba bl dih (use_torch self)])))"
  by (simp add: Let_def nth_append split: sum.splits)

lemma place_atoms_stepD:
  assumes "place_atoms self i ((bond, dih) # rest) (r0 @ [a, b, c]) = Inr r1"
  obtains ba bl where "get_bond_angle self bond i = Inr ba" "get_bond_length self bond i = Inr bl"
    "place_atoms self i rest
       ((r0 @ [a]) @ [b, c, place_dihedral a b c ba bl dih (use_torch self)]) = Inr r1"
  using assms unfolding place_atoms_step by (auto split: sum.splits)

lemma atom_placedI:
  assumes "get_bond_angle self bond i = Inr ba" "get_bond_length self bond i = Inr bl"
    "coords ! n = place_dihedral (coords ! (n - 3)) (coords ! (n - 2)) (coords ! (n - 1))
                          ba bl dih (use_torch self)"
  shows "atom_placed self coords n bond i dih"
  unfolding atom_placed_def using assms by simp

lemma atom_placedD:
  assumes "atom_placed self coords n bond i dih"
  obtains ba bl where
    "get_bond_angle self bond i = Inr ba" "get_bond_length self bond i = Inr bl"
    "coords ! n = place_dihedral (coords ! (n - 3)) (coords ! (n - 2)) (coords ! (n - 1))
                          ba bl dih (use_torch self)"
  using assms unfolding atom_placed_def by (auto split: sum.splits)

lemma atom_placed_cong:
  assumes "atom_placed self r1 n bond i dih"
    and "r' ! n = r1 ! n" "r' ! (n - 1) = r1 ! (n - 1)" "r' ! (n - 2) = r1 ! (n - 2)"
        "r' ! (n - 3) = r1 ! (n - 3)"
  shows "atom_placed self r' n bond i dih"
proof -
  from atom_placedD [OF assms(1)] obtain ba bl where
    g: "get_bond_angle self bond i = Inr ba" "get_bond_length self bond i = Inr bl"
    and p: "r1 ! n = place_dihedral (r1 ! (n - 3)) (r1 ! (n - 2)) (r1 ! (n - 1))
                          ba bl dih (use_torch self)" .
  show ?thesis
    by (rule atom_placedI [OF g]) (simp only: assms(2-5) p)
qed

lemma place_atoms_residue:
  assumes k: "standard_keys self" and r: "3 \<le> length r"
    and ok: "place_atoms self i (zip (map fst (bond_lengths self)) [ps, om, ph]) r = Inr r1"
  shows "length r1 = length r + 3" "take (length r) r1 = r"
    "atom_placed self r1 (length r) C_N i ps"
    "atom_placed self r1 (length r + 1) N_CA i om"
    "atom_placed self r1 (length r + 2) CA_C i ph"
proof -
  from last3_split [OF r] obtain r0 a b c where r0: "r = r0 @ [a, b, c]" by blast
  from k have z: "zip (map fst (bond_lengths self)) [ps, om, ph] = [(C_N, ps), (N_CA, om), (CA_C, ph)]"
    by (simp add: standard_keys_def)
  from ok have s1: "place_atoms self i ((C_N, ps) # [(N_CA, om), (CA_C, ph)]) (r0 @ [a, b, c]) = Inr r1"
    unfolding z r0 .
  from place_atoms_stepD [OF s1] obtain a1 l1 where
    g1: "get_bond_angle self C_N i = Inr a1" "get_bond_length self C_N i = Inr l1"
    and s2: "place_atoms self i ((N_CA, om) # [(CA_C, ph)])
       ((r0 @ [a]) @ [b, c, place_dihedral a b c a1 l1 ps (use_torch self)]) = Inr r1" .
  define d1 where "d1 = place_dihedral a b c a1 l1 ps (use_torch self)"
  from place_atoms_stepD [OF s2 [folded d1_def]] obtain a2 l2 where
    g2: "get_bond_angle self N_CA i = Inr a2" "get_bond_length self N_CA i = Inr l2"
    and s3: "place_atoms self i ((CA_C, ph) # [])
       (((r0 @ [a]) @ [b]) @ [c, d1, place_dihedral b c d1 a2 l2 om (use_torch self)]) = Inr r1" .
  define d2 where "d2 = place_dihedral b c d1 a2 l2 om (use_torch self)"
  from place_atoms_stepD [OF s3 [folded d2_def]] obtain a3 l3 where
    g3: "get_bond_angle self CA_C i = Inr a3" "get_bond_length self CA_C i = Inr l3"
    and s4: "place_atoms self i []
       ((((r0 @ [a]) @ [b]) @ [c]) @ [d1, d2, place_dihedral c d1 d2 a3 l3 ph (use_torch self)]) = Inr r1" .
  define d3 where "d3 = place_dihedral c d1 d2 a3 l3 ph (use_torch self)"
  from s4 have r1: "r1 = r0 @ [a, b, c, d1, d2, d3]" unfolding d3_def by simp
  have len: "length r = length r0 + 3" by (simp add: r0)
  show "length r1 = length r + 3" by (simp add: r1 r0)
  show "take (length r) r1 = r" by (simp add: r1 r0)
  show "atom_placed self r1 (length r) C_N i ps"
    by (rule atom_placedI [OF g1]) (simp add: len r1 nth_append d1_def)
  show "atom_placed self r1 (length r + 1) N_CA i om"
    by (rule atom_placedI [OF g2]) (simp add: len r1 nth_append d2_def)
  show "atom_placed self r1 (length r + 2) CA_C i ph"
    by (rule atom_placedI [OF g3]) (simp add: len r1 nth_append d3_def)
qed

lemma build_residues_trace:
  assumes "standard_keys self" and "3 \<le> length r" and "build_residues self i ts r = Inr r'"
  shows "length r' = length r + 3 * length ts \<and> take (length r) r' = r \<and>
         (\<forall>k<length ts. case ts ! k of (ph, ps, om) \<Rightarrow>
             atom_placed self r' (length r + 3 * k) C_N (i + k) ps \<and>
             atom_placed self r' (length r + 3 * k + 1) N_CA (i + k) om \<and>
             atom_placed self r' (length r + 3 * k + 2) CA_C (i + k) ph)"
  using assms
proof (induction ts arbitrary: i r)
  case Nil
  then show ?case by simp
next
  case (Cons t ts)
  obtain ph ps om where t: "t = (ph, ps, om)" by (cases t)
  from Cons.prems(3) obtain r1 where
    r1: "place_atoms self i (zip (map fst (bond_lengths self)) [ps, om, ph]) r = Inr r1"
    and rest: "build_residues self (Suc i) ts r1 = Inr r'"
    unfolding t by (auto split: sum.splits)
  note one = place_atoms_residue [OF Cons.prems(1,2) r1]
  from one(1) have "3 \<le> length r1" by simp
  from Cons.IH [OF Cons.prems(1) this rest] have
    len: "length r' = length r1 + 3 * length ts" and tk: "take (length r1) r' = r1"
    and pl: "\<forall>k<length ts. case ts ! k of (ph, ps, om) \<Rightarrow>
             atom_placed self r' (length r1 + 3 * k) C_N (Suc i + k) ps \<and>
             atom_placed self r' (length r1 + 3 * k + 1) N_CA (Suc i + k) om \<and>
             atom_placed self r' (length r1 + 3 * k + 2) CA_C (Suc i + k) ph" by simp_all
  have nth1: "r' ! j = r1 ! j" if "j < length r1" for j
  proof -
    from that have "take (length r1) r' ! j = r' ! j" by (rule nth_take)
    then show ?thesis by (simp only: tk)
  qed
  have c1: "length r' = length r + 3 * length (t # ts)" using len one(1) by simp
  have c2: "take (length r) r' = r"
  proof -
    have "take (length r) r' = take (length r) (take (length r1) r')" using one(1) by simp
    then show ?thesis using tk one(2) by simp
  qed
  have p0: "atom_placed self r' (length r) C_N i ps"
    "atom_placed self r' (length r + 1) N_CA i om"
    "atom_placed self r' (length r + 2) CA_C i ph"
  proof -
    have lt: "length r < length r1" "length r + 1 < length r1" "length r + 2 < length r1"
      "length r - 1 < length r1" "length r - 2 < length r1" "length r - 3 < length r1"
      "length r + 1 - 1 < length r1" "length r + 1 - 2 < length r1" "length r + 1 - 3 < length r1"
      "length r + 2 - 1 < length r1" "length r + 2 - 2 < length r1" "length r + 2 - 3 < length r1"
      unfolding one(1) by arith+
    show "atom_placed self r' (length r) C_N i ps"
      by (rule atom_placed_cong [OF one(3) nth1 nth1 nth1 nth1]) (rule lt)+
    show "atom_placed self r' (length r + 1) N_CA i om"
      by (rule atom_placed_cong [OF one(4) nth1 nth1 nth1 nth1]) (rule lt)+
    show "atom_placed self r' (length r + 2) CA_C i ph"
      by (rule atom_placed_cong [OF one(5) nth1 nth1 nth1 nth1]) (rule lt)+
  qed
  have c3: "\<forall>k<length (t # ts). case (t # ts) ! k of (ph, ps, om) \<Rightarrow>
             atom_placed self r' (length r + 3 * k) C_N (i + k) ps \<and>
             atom_placed self r' (length r + 3 * k + 1) N_CA (i + k) om \<and>
             atom_placed self r' (length r + 3 * k + 2) CA_C (i + k) ph"
  proof (intro allI impI)
    fix k assume k: "k < length (t # ts)"
    show "case (t # ts) ! k of (ph, ps, om) \<Rightarrow>
             atom_placed self r' (length r + 3 * k) C_N (i + k) ps \<and>
             atom_placed self r' (length r + 3 * k + 1) N_CA (i + k) om \<and>
             atom_placed self r' (length r + 3 * k + 2) CA_C (i + k) ph"
    proof (cases k)
      case 0
      have "(t # ts) ! k = (ph, ps, om)" "length r + 3 * k = length r" "i + k = i"
        using 0 t by simp_all
      then show ?thesis using p0 by (simp only: prod.case)
    next
      case (Suc k')
      with k have k': "k' < length ts" by simp
      note ih = pl [rule_format, OF k']
      have e: "length r + 3 * k = length r1 + 3 * k'" "i + k = Suc i + k'"
        "(t # ts) ! k = ts ! k'"
        using one(1) Suc by simp_all
      show ?thesis unfolding e by (rule ih)
    qed
  qed
  show ?case by (intro conjI) (rule c1, rule c2, rule c3)
qed







section \<open>Lookups in the bond tables\<close>

lemma covers_mono: "covers v k \<Longrightarrow> j \<le> k \<Longrightarrow> covers v j"
  by (cases v) (simp_all add: covers_def)

lemma tables_cover_mono: "tables_cover self k \<Longrightarrow> j \<le> k \<Longrightarrow> tables_cover self j"
  unfolding tables_cover_def list_all_iff using covers_mono by blast

lemma keys3:
  assumes "map fst (xs :: (bond \<times> bond_value) list) = [C_N, N_CA, CA_C]"
  obtains v1 v2 v3 where "xs = [(C_N, v1), (N_CA, v2), (CA_C, v3)]"
proof -
  from assms have "length xs = 3" by (metis length_map length_Cons list.size(3) numeral_3_eq_3)
  from length3_conv [OF this] obtain x y z where xs: "xs = [x, y, z]" by blast
  with assms have "fst x = C_N" "fst y = N_CA" "fst z = CA_C" by simp_all
  then have "xs = [(C_N, snd x), (N_CA, snd y), (CA_C, snd z)]"
    unfolding xs by (metis prod.collapse)
  then show thesis by (rule that)
qed

lemma lookup_value:
  assumes "map fst (xs :: (bond \<times> bond_value) list) = [C_N, N_CA, CA_C]"
  obtains v where "map_of xs bond = Some v" "(bond, v) \<in> set xs"
proof -
  from keys3 [OF assms] obtain v1 v2 v3 where xs: "xs = [(C_N, v1), (N_CA, v2), (CA_C, v3)]" .
  show thesis
  proof (cases bond)
    case C_N
    show ?thesis by (rule that [of v1]) (simp_all add: xs C_N)
  next
    case N_CA
    show ?thesis by (rule that [of v2]) (simp_all add: xs N_CA)
  next
    case CA_C
    show ?thesis by (rule that [of v3]) (simp_all add: xs CA_C)
  qed
qed

lemma lookup_unique:
  assumes "map fst (xs :: (bond \<times> bond_value) list) = [C_N, N_CA, CA_C]" "(bond, v) \<in> set xs"
  shows "map_of xs bond = Some v"
proof -
  from assms(1) have "distinct (map fst xs)" by simp
  with assms(2) show ?thesis by simp
qed

lemma lookup_result:
  fixes v :: bond_value
  shows "(case Some v of None \<Rightarrow> Inl KeyError | Some (FloatVal x) \<Rightarrow> Inr x
          | Some (ArrayVal xs) \<Rightarrow> if i < length xs then Inr (xs ! i) else Inl IndexError) =
         (if covers v (Suc i) then Inr (case v of FloatVal x \<Rightarrow> x | ArrayVal xs \<Rightarrow> xs ! i)
          else Inl IndexError)"
  by (cases v) (simp_all add: covers_def Suc_le_eq)

lemma get_bond_length_cases:
  assumes "standard_keys self"
  obtains v where "(bond, v) \<in> set (bond_lengths self)"
    "get_bond_length self bond i =
       (if covers v (Suc i) then Inr (case v of FloatVal x \<Rightarrow> x | ArrayVal xs \<Rightarrow> xs ! i)
        else Inl IndexError)"
proof -
  from assms have k: "map fst (bond_lengths self) = [C_N, N_CA, CA_C]"
    by (simp add: standard_keys_def)
  from lookup_value [OF k] obtain v where
    v: "map_of (bond_lengths self) bond = Some v" "(bond, v) \<in> set (bond_lengths self)" .
  show thesis
    by (rule that [OF v(2)]) (simp only: get_bond_length_def v(1) lookup_result)
qed

lemma get_bond_angle_cases:
  assumes "standard_keys self"
  obtains v where "(bond, v) \<in> set (bond_angles self)"
    "get_bond_angle self bond i =
       (if covers v (Suc i) then Inr (case v of FloatVal x \<Rightarrow> x | ArrayVal xs \<Rightarrow> xs ! i)
        else Inl IndexError)"
proof -
  from assms have k: "map fst (bond_angles self) = [C_N, N_CA, CA_C]"
    by (simp add: standard_keys_def)
  from lookup_value [OF k] obtain v where
    v: "map_of (bond_angles self) bond = Some v" "(bond, v) \<in> set (bond_angles self)" .
  show thesis
    by (rule that [OF v(2)]) (simp only: get_bond_angle_def v(1) lookup_result)
qed

lemma tables_coverD:
  assumes "tables_cover self k"
  shows "(bond, v) \<in> set (bond_lengths self) \<Longrightarrow> covers v k"
    and "(bond, v) \<in> set (bond_angles self) \<Longrightarrow> covers v k"
proof -
  from assms have all: "\<forall>bv\<in>set (bond_lengths self @ bond_angles self). covers (snd bv) k"
    unfolding tables_cover_def list_all_iff .
  {
    assume "(bond, v) \<in> set (bond_lengths self)"
    then have "(bond, v) \<in> set (bond_lengths self @ bond_angles self)" by simp
    with all have "covers (snd (bond, v)) k" by (rule bspec)
    then show "covers v k" by simp
  }
  {
    assume "(bond, v) \<in> set (bond_angles self)"
    then have "(bond, v) \<in> set (bond_lengths self @ bond_angles self)" by simp
    with all have "covers (snd (bond, v)) k" by (rule bspec)
    then show "covers v k" by simp
  }
qed

lemma getters_ok:
  assumes "standard_keys self" "tables_cover self (Suc i)"
  obtains ba bl where "get_bond_angle self bond i = Inr ba" "get_bond_length self bond i = Inr bl"
proof -
  from get_bond_angle_cases [OF assms(1), of bond i] obtain va where
    va: "(bond, va) \<in> set (bond_angles self)"
    "get_bond_angle self bond i =
       (if covers va (Suc i) then Inr (case va of FloatVal x \<Rightarrow> x | ArrayVal xs \<Rightarrow> xs ! i)
        else Inl IndexError)" .
  from get_bond_length_cases [OF assms(1), of bond i] obtain vl where
    vl: "(bond, vl) \<in> set (bond_lengths self)"
    "get_bond_length self bond i =
       (if covers vl (Suc i) then Inr (case vl of FloatVal x \<Rightarrow> x | ArrayVal xs \<Rightarrow> xs ! i)
        else Inl IndexError)" .
  from tables_coverD(2) [OF assms(2) va(1)] va(2)
  have a: "get_bond_angle self bond i = Inr (case va of FloatVal x \<Rightarrow> x | ArrayVal xs \<Rightarrow> xs ! i)"
    by simp
  from tables_coverD(1) [OF assms(2) vl(1)] vl(2)
  have l: "get_bond_length self bond i = Inr (case vl of FloatVal x \<Rightarrow> x | ArrayVal xs \<Rightarrow> xs ! i)"
    by simp
  from a l show thesis by (rule that)
qed

lemma getters_error:
  assumes "standard_keys self"
  shows "get_bond_angle self bond i = Inl e \<Longrightarrow> e = IndexError"
    and "get_bond_length self bond i = Inl e \<Longrightarrow> e = IndexError"
proof -
  from get_bond_angle_cases [OF assms, of bond i] obtain va where
    "get_bond_angle self bond i =
       (if covers va (Suc i) then Inr (case va of FloatVal x \<Rightarrow> x | ArrayVal xs \<Rightarrow> xs ! i)
        else Inl IndexError)" .
  then show "get_bond_angle self bond i = Inl e \<Longrightarrow> e = IndexError"
    by (simp split: if_splits)
  from get_bond_length_cases [OF assms, of bond i] obtain vl where
    "get_bond_length self bond i =
       (if covers vl (Suc i) then Inr (case vl of FloatVal x \<Rightarrow> x | ArrayVal xs \<Rightarrow> xs ! i)
        else Inl IndexError)" .
  then show "get_bond_length self bond i = Inl e \<Longrightarrow> e = IndexError"
    by (simp split: if_splits)
qed

lemma getters_fail:
  assumes "standard_keys self" "\<not> tables_cover self (Suc i)"
  obtains bond where "get_bond_angle self bond i = Inl IndexError \<or> get_bond_length self bond i = Inl IndexError"
proof -
  from assms(2) obtain p where
    p: "p \<in> set (bond_lengths self @ bond_angles self)" and np: "\<not> covers (snd p) (Suc i)"
    unfolding tables_cover_def list_all_iff by blast
  obtain bond v where pv: "p = (bond, v)" by (cases p)
  from p have bv: "(bond, v) \<in> set (bond_lengths self) \<or> (bond, v) \<in> set (bond_angles self)"
    unfolding pv by simp
  from np have nc: "\<not> covers v (Suc i)" unfolding pv by simp
  from assms(1) have k: "map fst (bond_lengths self) = [C_N, N_CA, CA_C]"
    "map fst (bond_angles self) = [C_N, N_CA, CA_C]"
    by (simp_all add: standard_keys_def)
  from bv show thesis
  proof
    assume "(bond, v) \<in> set (bond_lengths self)"
    from lookup_unique [OF k(1) this] nc
    have "get_bond_length self bond i = Inl IndexError"
      by (simp only: get_bond_length_def lookup_result if_False)
    then show thesis by (intro that [of bond] disjI2)
  next
    assume "(bond, v) \<in> set (bond_angles self)"
    from lookup_unique [OF k(2) this] nc
    have "get_bond_angle self bond i = Inl IndexError"
      by (simp only: get_bond_angle_def lookup_result if_False)
    then show thesis by (intro that [of bond] disjI1)
  qed
qed

lemma place_atoms_unfold:
  assumes "3 \<le> length r"
    and "get_bond_angle self bond i = Inr ba" "get_bond_length self bond i = Inr bl"
  shows "place_atoms self i ((bond, dih) # rest) r =
     place_atoms self i rest
       (r @ [place_dihedral (r ! (length r - 3)) (r ! (length r - 2)) (r ! (length r - 1))
               ba bl dih (use_torch self)])"
  using assms by (simp add: Let_def)

lemma place_atoms_ok:
  assumes "standard_keys self" "tables_cover self (Suc i)"
  shows "3 \<le> length r \<Longrightarrow> \<exists>r1. place_atoms self i bds r = Inr r1"
proof (induction bds arbitrary: r)
  case Nil
  show ?case by simp
next
  case (Cons bd bds)
  obtain bond dih where bd: "bd = (bond, dih)" by (cases bd)
  from getters_ok [OF assms, of bond] obtain ba bl where
    g: "get_bond_angle self bond i = Inr ba" "get_bond_length self bond i = Inr bl" .
  let ?r = "r @ [place_dihedral (r ! (length r - 3)) (r ! (length r - 2)) (r ! (length r - 1))
               ba bl dih (use_torch self)]"
  from Cons.prems have "3 \<le> length ?r" by simp
  from Cons.IH [OF this] show ?case
    unfolding bd place_atoms_unfold [OF Cons.prems g] .
qed

lemma place_atoms_errors:
  assumes "standard_keys self"
  shows "3 \<le> length r \<Longrightarrow> place_atoms self i bds r = Inl e \<Longrightarrow> e = IndexError"
proof (induction bds arbitrary: r)
  case Nil
  then show ?case by simp
next
  case (Cons bd bds)
  obtain bond dih where bd: "bd = (bond, dih)" by (cases bd)
  show ?case
  proof (cases "get_bond_angle self bond i")
    case (Inl e1)
    from Cons.prems have "e = e1" unfolding bd by (simp add: Inl)
    with getters_error(1) [OF assms Inl] show ?thesis by simp
  next
    case ba: (Inr ba)
    show ?thesis
    proof (cases "get_bond_length self bond i")
      case (Inl e2)
      from Cons.prems have "e = e2" unfolding bd by (simp add: ba Inl)
      with getters_error(2) [OF assms Inl] show ?thesis by simp
    next
      case bl: (Inr bl)
      let ?r = "r @ [place_dihedral (r ! (length r - 3)) (r ! (length r - 2)) (r ! (length r - 1))
               ba bl dih (use_torch self)]"
      from Cons.prems(1) have len: "3 \<le> length ?r" by simp
      from Cons.prems(2) have "place_atoms self i bds ?r = Inl e"
        unfolding bd place_atoms_unfold [OF Cons.prems(1) ba bl] .
      from Cons.IH [OF len this] show ?thesis .
    qed
  qed
qed

lemma place_atoms_fail:
  assumes k: "standard_keys self" and nc: "\<not> tables_cover self (Suc i)" and r: "3 \<le> length r"
  shows "place_atoms self i (zip (map fst (bond_lengths self)) [ps, om, ph]) r = Inl IndexError"
proof (cases "place_atoms self i (zip (map fst (bond_lengths self)) [ps, om, ph]) r")
  case (Inl e)
  from place_atoms_errors [OF k r Inl] Inl show ?thesis by simp
next
  case (Inr r1)
  note one = place_atoms_residue [OF k r Inr]
  from getters_fail [OF k nc] obtain bond where
    f: "get_bond_angle self bond i = Inl IndexError \<or> get_bond_length self bond i = Inl IndexError" .
  have "\<exists>ba bl. get_bond_angle self bond i = Inr ba \<and> get_bond_length self bond i = Inr bl"
  proof (cases bond)
    case C_N
    from atom_placedD [OF one(3)] show ?thesis unfolding C_N by metis
  next
    case N_CA
    from atom_placedD [OF one(4)] show ?thesis unfolding N_CA by metis
  next
    case CA_C
    from atom_placedD [OF one(5)] show ?thesis unfolding CA_C by metis
  qed
  with f show ?thesis by auto
qed

lemma build_residues_ok:
  assumes k: "standard_keys self"
  shows "tables_cover self (i + length ts) \<Longrightarrow> 3 \<le> length r \<Longrightarrow>
         \<exists>r'. build_residues self i ts r = Inr r'"
proof (induction ts arbitrary: i r)
  case Nil
  show ?case by simp
next
  case (Cons t ts)
  obtain ph ps om where t: "t = (ph, ps, om)" by (cases t)
  from Cons.prems(1) have c1: "tables_cover self (Suc i)"
    by (rule tables_cover_mono) simp
  from place_atoms_ok [OF k c1 Cons.prems(2)] obtain r1 where
    r1: "place_atoms self i (zip (map fst (bond_lengths self)) [ps, om, ph]) r = Inr r1" by blast
  from place_atoms_residue(1) [OF k Cons.prems(2) r1] have len: "3 \<le> length r1" by simp
  from Cons.prems(1) have "tables_cover self (Suc i + length ts)" by simp
  from Cons.IH [OF this len] show ?case unfolding t by (simp add: r1)
qed

lemma build_residues_fail:
  assumes k: "standard_keys self"
  shows "\<not> tables_cover self (i + length ts) \<Longrightarrow> tables_cover self i \<Longrightarrow> 3 \<le> length r \<Longrightarrow>
         build_residues self i ts r = Inl IndexError"
proof (induction ts arbitrary: i r)
  case Nil
  then show ?case by simp
next
  case (Cons t ts)
  obtain ph ps om where t: "t = (ph, ps, om)" by (cases t)
  show ?case
  proof (cases "tables_cover self (Suc i)")
    case True
    from place_atoms_ok [OF k True Cons.prems(3)] obtain r1 where
      r1: "place_atoms self i (zip (map fst (bond_lengths self)) [ps, om, ph]) r = Inr r1" by blast
    from place_atoms_residue(1) [OF k Cons.prems(3) r1] have len: "3 \<le> length r1" by simp
    from Cons.prems(1) have "\<not> tables_cover self (Suc i + length ts)" by simp
    from Cons.IH [OF this True len] show ?thesis unfolding t by (simp add: r1)
  next
    case False
    from place_atoms_fail [OF k False Cons.prems(3)] show ?thesis unfolding t by simp
  qed
qed

section \<open>Builders made by the constructor\<close>

lemma NERFBuilder_fields:
  assumes "NERFBuilder phi_d psi_d omega_d l_nca l_cac l_cn a_nca a_cac a_cn init = Inr self"
  shows "use_torch self = list_ex is_tensor [phi_d, psi_d, omega_d]"
    and "phi self = squeeze (entries phi_d)"
    and "psi self = squeeze (entries psi_d)"
    and "omega self = squeeze (entries omega_d)"
    and "bond_lengths self = [(C_N, l_cn), (N_CA, l_nca), (CA_C, l_cac)]"
    and "bond_angles self = [(C_N, a_cn), (N_CA, a_nca), (CA_C, a_cac)]"
    and "init_coords self = map to_point init"
    and "length init = 3"
    and "list_all (\<lambda>c. length c = 3) init"
  using assms by (auto simp: NERFBuilder_def split: if_splits)

lemma NERFBuilder_standard:
  assumes "NERFBuilder phi_d psi_d omega_d l_nca l_cac l_cn a_nca a_cac a_cn init = Inr self"
  shows "standard_keys self" and "length (init_coords self) = 3"
  using NERFBuilder_fields [OF assms] by (simp_all add: standard_keys_def)

lemma slice_from_1_squeeze:
  "slice_from_1 (squeeze xs) = (if length xs = 1 then Inl IndexError else Inr (tl xs))"
proof (cases xs)
  case Nil
  then show ?thesis by (simp add: squeeze_def)
next
  case (Cons x ys)
  then show ?thesis by (cases ys) (simp_all add: squeeze_def)
qed

lemma slice_to_last_squeeze:
  "slice_to_last (squeeze xs) = (if length xs = 1 then Inl IndexError else Inr (butlast xs))"
proof (cases xs)
  case Nil
  then show ?thesis by (simp add: squeeze_def)
next
  case (Cons x ys)
  then show ?thesis by (cases ys) (simp_all add: squeeze_def)
qed

lemma cartesian_coords_constructed:
  assumes "NERFBuilder phi_d psi_d omega_d l_nca l_cac l_cn a_nca a_cac a_cn init = Inr self"
  shows "cartesian_coords self =
     (if length (entries phi_d) = 1 \<or> length (entries psi_d) = 1 \<or> length (entries omega_d) = 1
      then Inl IndexError
      else build_residues self 0
             (zip (tl (entries phi_d)) (zip (butlast (entries psi_d)) (butlast (entries omega_d))))
             (init_coords self))"
  unfolding cartesian_coords_def NERFBuilder_fields(2-4) [OF assms]
    slice_from_1_squeeze slice_to_last_squeeze
  by (simp add: Let_def)

lemma length_triples:
  "length (zip (tl xs) (zip (butlast ys) (butlast zs))) =
     min (length xs - 1) (min (length ys - 1) (length zs - 1))"
  by simp

lemma nth_triples:
  assumes "i < min (length xs - 1) (min (length ys - 1) (length zs - 1))"
  shows "zip (tl xs) (zip (butlast ys) (butlast zs)) ! i = (xs ! (i + 1), ys ! i, zs ! i)"
proof -
  from assms have "i < length (tl xs)" "i < length (butlast ys)" "i < length (butlast zs)"
    by simp_all
  then show ?thesis by (simp add: nth_tl nth_butlast)
qed

lemma coords_trace:
  assumes b: "NERFBuilder phi_d psi_d omega_d l_nca l_cac l_cn a_nca a_cac a_cn init = Inr self"
    and c: "cartesian_coords self = Inr coords"
  shows "length coords = 3 + 3 * n_placed phi_d psi_d omega_d"
    and "take 3 coords = init_coords self"
    and "i < n_placed phi_d psi_d omega_d \<Longrightarrow>
           atom_placed self coords (3 + 3 * i) C_N i (entries psi_d ! i) \<and>
           atom_placed self coords (3 + 3 * i + 1) N_CA i (entries omega_d ! i) \<and>
           atom_placed self coords (3 + 3 * i + 2) CA_C i (entries phi_d ! (i + 1))"
proof -
  let ?ts = "zip (tl (entries phi_d)) (zip (butlast (entries psi_d)) (butlast (entries omega_d)))"
  note std = NERFBuilder_standard [OF b]
  from c have br: "build_residues self 0 ?ts (init_coords self) = Inr coords"
    unfolding cartesian_coords_constructed [OF b] by (simp split: if_splits)
  from std(2) have len3: "3 \<le> length (init_coords self)" by simp
  note tr = build_residues_trace [OF std(1) len3 br, unfolded std(2) length_triples]
  from tr show "length coords = 3 + 3 * n_placed phi_d psi_d omega_d"
    by (simp add: n_placed_def)
  from tr show "take 3 coords = init_coords self" by simp
  assume i: "i < n_placed phi_d psi_d omega_d"
  then have i': "i < min (length (entries phi_d) - 1)
                    (min (length (entries psi_d) - 1) (length (entries omega_d) - 1))"
    by (simp add: n_placed_def)
  from tr have "\<forall>k<min (length (entries phi_d) - 1)
                    (min (length (entries psi_d) - 1) (length (entries omega_d) - 1)).
      case ?ts ! k of (ph, ps, om) \<Rightarrow>
             atom_placed self coords (3 + 3 * k) C_N (0 + k) ps \<and>
             atom_placed self coords (3 + 3 * k + 1) N_CA (0 + k) om \<and>
             atom_placed self coords (3 + 3 * k + 2) CA_C (0 + k) ph"
    by (rule conjunct2 [OF conjunct2])
  from this [rule_format, OF i']
  show "atom_placed self coords (3 + 3 * i) C_N i (entries psi_d ! i) \<and>
           atom_placed self coords (3 + 3 * i + 1) N_CA i (entries omega_d ! i) \<and>
           atom_placed self coords (3 + 3 * i + 2) CA_C i (entries phi_d ! (i + 1))"
    unfolding nth_triples [OF i'] by (simp only: prod.case add_0)
qed

lemma cartesian_coords_total:
  assumes b: "NERFBuilder phi_d psi_d omega_d l_nca l_cac l_cn a_nca a_cac a_cn init = Inr self"
    and l: "length (entries phi_d) \<noteq> 1" "length (entries psi_d) \<noteq> 1" "length (entries omega_d) \<noteq> 1"
    and t: "tables_cover self (n_placed phi_d psi_d omega_d)"
  shows "\<exists>coords. cartesian_coords self = Inr coords \<and>
           length coords = 3 + 3 * n_placed phi_d psi_d omega_d"
proof -
  let ?ts = "zip (tl (entries phi_d)) (zip (butlast (entries psi_d)) (butlast (entries omega_d)))"
  note std = NERFBuilder_standard [OF b]
  from std(2) have len3: "3 \<le> length (init_coords self)" by simp
  from t have "tables_cover self (0 + length ?ts)"
    unfolding length_triples by (simp add: n_placed_def)
  from build_residues_ok [OF std(1) this len3] obtain coords where
    "build_residues self 0 ?ts (init_coords self) = Inr coords" by blast
  with l have c: "cartesian_coords self = Inr coords"
    unfolding cartesian_coords_constructed [OF b] by simp
  from coords_trace(1) [OF b c] c show ?thesis by blast
qed

lemma cartesian_coords_short_table:
  assumes b: "NERFBuilder phi_d psi_d omega_d l_nca l_cac l_cn a_nca a_cac a_cn init = Inr self"
    and t: "\<not> tables_cover self (n_placed phi_d psi_d omega_d)"
  shows "cartesian_coords self = Inl IndexError"
proof -
  let ?ts = "zip (tl (entries phi_d)) (zip (butlast (entries psi_d)) (butlast (entries omega_d)))"
  note std = NERFBuilder_standard [OF b]
  from std(2) have len3: "3 \<le> length (init_coords self)" by simp
  from t have nc: "\<not> tables_cover self (0 + length ?ts)"
    unfolding length_triples by (simp add: n_placed_def)
  have c0: "tables_cover self 0"
    by (simp add: tables_cover_def list_all_iff covers_def split: bond_value.splits)
  from build_residues_fail [OF std(1) nc c0 len3]
  show ?thesis unfolding cartesian_coords_constructed [OF b] by simp
qed

text \<open>
  Claim C2. A builder made by the constructor whose coordinates are computed runs the
  outer loop \<open>n_placed\<close> times. For every residue index \<open>i\<close> it processes, the three
  atoms at positions \<open>3 + 3 i\<close>, \<open>3 + 3 i + 1\<close> and \<open>3 + 3 i + 2\<close> of the result are
  the placements from the three atoms just before them, with the table entries of the
  bonds C-N, N-CA and CA-C at index \<open>i\<close>, in this order, and with the torsions \<open>psi[i]\<close>,
  \<open>omega[i]\<close> and \<open>phi[i + 1]\<close>; the first three coordinates are the initial ones and the
  result has \<open>3 + 3 n_placed\<close> coordinates, three per residue processed.
\<close>

theorem cartesian_coords_placement_order:
  assumes "NERFBuilder phi_dihedrals psi_dihedrals omega_dihedrals
             bond_len_n_ca bond_len_ca_c bond_len_c_n
             bond_angle_n_ca bond_angle_ca_c bond_angle_c_n init = Inr self"
    and "cartesian_coords self = Inr coords"
    and "i < n_placed phi_dihedrals psi_dihedrals omega_dihedrals"
  shows "length coords = 3 + 3 * n_placed phi_dihedrals psi_dihedrals omega_dihedrals \<and>
         take 3 coords = init_coords self \<and>
         map fst (bond_lengths self) = [C_N, N_CA, CA_C] \<and>
         atom_placed self coords (3 + 3 * i) C_N i (entries psi_dihedrals ! i) \<and>
         atom_placed self coords (3 + 3 * i + 1) N_CA i (entries omega_dihedrals ! i) \<and>
         atom_placed self coords (3 + 3 * i + 2) CA_C i (entries phi_dihedrals ! (i + 1))"
proof -
  from NERFBuilder_standard(1) [OF assms(1)]
  have "map fst (bond_lengths self) = [C_N, N_CA, CA_C]" by (simp add: standard_keys_def)
  with coords_trace [OF assms(1,2)] assms(3) show ?thesis by simp
qed

lemma default_builder_ok:
  "\<exists>self. NERFBuilder_default phi_d psi_d omega_d = Inr self"
  by (simp add: NERFBuilder_default_def NERFBuilder_def N_INIT_def CA_INIT_def C_INIT_def)

lemma default_tables_cover:
  assumes "NERFBuilder_default phi_d psi_d omega_d = Inr self"
  shows "tables_cover self k"
  using NERFBuilder_fields(5,6) [OF assms [unfolded NERFBuilder_default_def]]
  by (simp add: tables_cover_def covers_def)

theorem cartesian_coords_placement_order_witness:
  "\<exists>self coords.
     NERFBuilder_default (NpArray [None, Some 0]) (NpArray [Some 1, None]) (NpArray [Some pi, None])
       = Inr self \<and>
     cartesian_coords self = Inr coords \<and>
     (0::nat) < n_placed (NpArray [None, Some 0]) (NpArray [Some 1, None]) (NpArray [Some pi, None]) \<and>
     length coords = 6 \<and>
     atom_placed self coords 3 C_N 0 (Some 1) \<and>
     atom_placed self coords 4 N_CA 0 (Some pi) \<and>
     atom_placed self coords 5 CA_C 0 (Some 0)"
proof -
  let ?p = "NpArray [None, Some 0]" and ?q = "NpArray [Some 1, None]" and ?w = "NpArray [Some pi, None]"
  from default_builder_ok obtain self where b: "NERFBuilder_default ?p ?q ?w = Inr self" by blast
  have m: "n_placed ?p ?q ?w = 1" by (simp add: n_placed_def)
  from cartesian_coords_total [OF b [unfolded NERFBuilder_default_def] _ _ _
      default_tables_cover [OF b]]
  obtain coords where c: "cartesian_coords self = Inr coords" by auto
  have i: "0 < n_placed ?p ?q ?w" by (simp add: m)
  from cartesian_coords_placement_order [OF b [unfolded NERFBuilder_default_def] c i]
  have "length coords = 6 \<and> atom_placed self coords 3 C_N 0 (Some 1) \<and>
     atom_placed self coords 4 N_CA 0 (Some pi) \<and> atom_placed self coords 5 CA_C 0 (Some 0)"
    by (simp add: m)
  with b c i show ?thesis by blast
qed

section \<open>The claims on the chain builder\<close>

text \<open>
  Claim C3. For dihedral sequences of one length \<open>n\<close> and bond tables that cover the
  \<open>n - 1\<close> indices of the loop, the coordinates are \<open>3 + 3 (n - 1)\<close> points for every \<open>n\<close>
  other than 1. For \<open>n = 1\<close> the constructor's \<open>squeeze()\<close> leaves arrays without axis, and
  the slice \<open>self.phi[1:]\<close> raises IndexError: no coordinates are returned.
\<close>

theorem cartesian_coords_count:
  assumes "NERFBuilder phi_dihedrals psi_dihedrals omega_dihedrals
             bond_len_n_ca bond_len_ca_c bond_len_c_n
             bond_angle_n_ca bond_angle_ca_c bond_angle_c_n init = Inr self"
    and "length (entries phi_dihedrals) = n"
    and "length (entries psi_dihedrals) = n"
    and "length (entries omega_dihedrals) = n"
    and "tables_cover self (n - 1)"
  shows "(n = 1 \<longrightarrow> cartesian_coords self = Inl IndexError) \<and>
         (n \<noteq> 1 \<longrightarrow> (\<exists>coords. cartesian_coords self = Inr coords \<and>
                                  length coords = 3 + 3 * (n - 1)))"
proof (intro conjI impI)
  assume "n = 1"
  with assms(2) show "cartesian_coords self = Inl IndexError"
    unfolding cartesian_coords_constructed [OF assms(1)] by simp
next
  assume n: "n \<noteq> 1"
  have m: "n_placed phi_dihedrals psi_dihedrals omega_dihedrals = n - 1"
    by (simp add: n_placed_def assms(2-4))
  from n assms(2-4) have l: "length (entries phi_dihedrals) \<noteq> 1"
    "length (entries psi_dihedrals) \<noteq> 1" "length (entries omega_dihedrals) \<noteq> 1" by simp_all
  from cartesian_coords_total [OF assms(1) l] assms(5)
  show "\<exists>coords. cartesian_coords self = Inr coords \<and> length coords = 3 + 3 * (n - 1)"
    unfolding m by simp
qed

theorem cartesian_coords_count_witness:
  "\<exists>s1 s3.
     NERFBuilder_default (NpArray [None]) (NpArray [None]) (NpArray [None]) = Inr s1 \<and>
     tables_cover s1 (1 - 1) \<and> cartesian_coords s1 = Inl IndexError \<and>
     NERFBuilder_default (NpArray [None, Some 1, Some 1]) (NpArray [Some 2, Some 2, None])
       (NpArray [Some pi, Some pi, None]) = Inr s3 \<and>
     tables_cover s3 (3 - 1) \<and> map_sum id length (cartesian_coords s3) = Inr 9"
proof -
  let ?p = "NpArray [None]"
  let ?p3 = "NpArray [None, Some 1, Some 1]" and ?q3 = "NpArray [Some 2, Some 2, None]"
    and ?w3 = "NpArray [Some pi, Some pi, None]"
  from default_builder_ok obtain s1 where b1: "NERFBuilder_default ?p ?p ?p = Inr s1" by blast
  from default_builder_ok obtain s3 where b3: "NERFBuilder_default ?p3 ?q3 ?w3 = Inr s3" by blast
  note t1 = default_tables_cover [OF b1, of "1 - 1"]
  note t3 = default_tables_cover [OF b3, of "3 - 1"]
  from cartesian_coords_count [OF b1 [unfolded NERFBuilder_default_def] _ _ _ t1]
  have c1: "cartesian_coords s1 = Inl IndexError" by simp
  from cartesian_coords_count [OF b3 [unfolded NERFBuilder_default_def] _ _ _ t3]
  obtain coords where "cartesian_coords s3 = Inr coords" "length coords = 9" by auto
  then have c3: "map_sum id length (cartesian_coords s3) = Inr 9" by simp
  from b1 t1 c1 b3 t3 c3 show ?thesis by blast
qed

text \<open>
  Claim C4, evaluated on the code: the builder with every default argument and three
  sequences of a single entry each does not return the three initial coordinates;
  \<open>cartesian_coords\<close> raises IndexError, whatever the three entries are.
\<close>

theorem cartesian_coords_single_residue:
  "(case NERFBuilder_default (NpArray [x]) (NpArray [y]) (NpArray [z]) of
      Inl e \<Rightarrow> Inl e
    | Inr self \<Rightarrow> cartesian_coords self) = Inl IndexError"
proof -
  from default_builder_ok obtain self where
    b: "NERFBuilder_default (NpArray [x]) (NpArray [y]) (NpArray [z]) = Inr self" by blast
  have "cartesian_coords self = Inl IndexError"
    unfolding cartesian_coords_constructed [OF b [unfolded NERFBuilder_default_def]] by simp
  with b show ?thesis by simp
qed

text \<open>
  Claim C6, as the code has it. For dihedral sequences with more than one entry, or none,
  the lengths of the three sequences need not agree: \<open>zip\<close> stops with the shortest, and
  the loop runs \<open>n_placed\<close> times, the least of the three lengths minus one, and no
  time at all when a sequence is empty. Then \<open>cartesian_coords\<close> returns \<open>3 + 3 n_placed\<close>
  coordinates when every array of the two bond tables has at least \<open>n_placed\<close> entries,
  and raises IndexError otherwise.
\<close>

theorem shape_mismatch_behaviour:
  assumes "NERFBuilder phi_dihedrals psi_dihedrals omega_dihedrals
             bond_len_n_ca bond_len_ca_c bond_len_c_n
             bond_angle_n_ca bond_angle_ca_c bond_angle_c_n init = Inr self"
    and "length (entries phi_dihedrals) \<noteq> 1"
    and "length (entries psi_dihedrals) \<noteq> 1"
    and "length (entries omega_dihedrals) \<noteq> 1"
  shows "(tables_cover self (n_placed phi_dihedrals psi_dihedrals omega_dihedrals) \<longrightarrow>
            (\<exists>coords. cartesian_coords self = Inr coords \<and>
               length coords = 3 + 3 * n_placed phi_dihedrals psi_dihedrals omega_dihedrals)) \<and>
         (\<not> tables_cover self (n_placed phi_dihedrals psi_dihedrals omega_dihedrals) \<longrightarrow>
            cartesian_coords self = Inl IndexError)"
  using cartesian_coords_total [OF assms] cartesian_coords_short_table [OF assms(1)]
  by (intro conjI impI)

text \<open>
  The claim C6 as stated fails: with a sequence \<open>phi\<close> of three entries and sequences
  \<open>psi\<close> and \<open>omega\<close> of two, the default builder raises nothing and returns six
  coordinates.
\<close>

theorem unequal_lengths_no_error:
  "(case NERFBuilder_default (NpArray [None, Some 0, Some 0]) (NpArray [Some 0, None])
           (NpArray [Some pi, None]) of
      Inl e \<Rightarrow> Inl e
    | Inr self \<Rightarrow> map_sum id length (cartesian_coords self)) = Inr 6"
proof -
  let ?p = "NpArray [None, Some 0, Some 0]" and ?q = "NpArray [Some 0, None]"
    and ?w = "NpArray [Some pi, None]"
  from default_builder_ok obtain self where b: "NERFBuilder_default ?p ?q ?w = Inr self" by blast
  have m: "n_placed ?p ?q ?w = 1" by (simp add: n_placed_def)
  from cartesian_coords_total [OF b [unfolded NERFBuilder_default_def] _ _ _
      default_tables_cover [OF b]]
  obtain coords where "cartesian_coords self = Inr coords" "length coords = 6"
    by (auto simp: m)
  with b show ?thesis by simp
qed

theorem shape_mismatch_behaviour_witness:
  "\<exists>s1 s2.
     NERFBuilder (NpArray [None, Some 0, Some 0]) (NpArray [Some 0, Some 0, None])
         (NpArray [Some pi, Some pi, None])
         (FloatVal (Some N_CA_LENGTH)) (FloatVal (Some CA_C_LENGTH)) (ArrayVal [Some C_N_LENGTH])
         (FloatVal (Some 2)) (FloatVal (Some 2)) (FloatVal (Some 2))
         [N_INIT, CA_INIT, C_INIT] = Inr s1 \<and>
     \<not> tables_cover s1 2 \<and> cartesian_coords s1 = Inl IndexError \<and>
     NERFBuilder (NpArray [None, Some 0, Some 0]) (NpArray [Some 0, Some 0, None])
         (NpArray [Some pi, Some pi, None])
         (FloatVal (Some N_CA_LENGTH)) (FloatVal (Some CA_C_LENGTH))
         (ArrayVal [Some C_N_LENGTH, Some C_N_LENGTH])
         (FloatVal (Some 2)) (FloatVal (Some 2)) (FloatVal (Some 2))
         [N_INIT, CA_INIT, C_INIT] = Inr s2 \<and>
     tables_cover s2 2 \<and> map_sum id length (cartesian_coords s2) = Inr 9"
proof -
  let ?p = "NpArray [None, Some 0, Some 0]" and ?q = "NpArray [Some 0, Some 0, None]"
    and ?w = "NpArray [Some pi, Some pi, None]"
  have m: "n_placed ?p ?q ?w = 2" by (simp add: n_placed_def)
  obtain s1 where b1: "NERFBuilder ?p ?q ?w
         (FloatVal (Some N_CA_LENGTH)) (FloatVal (Some CA_C_LENGTH)) (ArrayVal [Some C_N_LENGTH])
         (FloatVal (Some 2)) (FloatVal (Some 2)) (FloatVal (Some 2))
         [N_INIT, CA_INIT, C_INIT] = Inr s1"
    by (simp add: NERFBuilder_def N_INIT_def CA_INIT_def C_INIT_def)
  obtain s2 where b2: "NERFBuilder ?p ?q ?w
         (FloatVal (Some N_CA_LENGTH)) (FloatVal (Some CA_C_LENGTH))
         (ArrayVal [Some C_N_LENGTH, Some C_N_LENGTH])
         (FloatVal (Some 2)) (FloatVal (Some 2)) (FloatVal (Some 2))
         [N_INIT, CA_INIT, C_INIT] = Inr s2"
    by (simp add: NERFBuilder_def N_INIT_def CA_INIT_def C_INIT_def)
  have t1: "\<not> tables_cover s1 2"
    using NERFBuilder_fields(5,6) [OF b1] by (simp add: tables_cover_def covers_def)
  have t2: "tables_cover s2 2"
    using NERFBuilder_fields(5,6) [OF b2] by (simp add: tables_cover_def covers_def)
  from shape_mismatch_behaviour [OF b1] t1 have c1: "cartesian_coords s1 = Inl IndexError"
    by (simp add: m)
  from shape_mismatch_behaviour [OF b2] t2
  obtain coords where "cartesian_coords s2 = Inr coords" "length coords = 9"
    by (auto simp: m)
  then have c2: "map_sum id length (cartesian_coords s2) = Inr 9" by simp
  from b1 t1 c1 b2 t2 c2 show ?thesis by blast
qed



lemma atom_uniform:
  assumes b: "NERFBuilder phi_d psi_d omega_d l_nca l_cac l_cn a_nca a_cac a_cn init = Inr self"
    and c: "cartesian_coords self = Inr coords"
    and n: "3 \<le> n" "n < length coords"
  shows "n div 3 - 1 < n_placed phi_d psi_d omega_d"
    and "atom_placed self coords n (atom_bond n) (n div 3 - 1) (atom_torsion phi_d psi_d omega_d n)"
proof -
  let ?i = "n div 3 - 1"
  from n(2) have lt: "n < 3 + 3 * n_placed phi_d psi_d omega_d"
    by (simp only: coords_trace(1) [OF b c])
  with n(1) show i: "?i < n_placed phi_d psi_d omega_d" by arith
  note tr = coords_trace(3) [OF b c i]
  have j: "n mod 3 = 0 \<or> n mod 3 = 1 \<or> n mod 3 = 2" by arith
  from j show "atom_placed self coords n (atom_bond n) ?i (atom_torsion phi_d psi_d omega_d n)"
  proof (elim disjE)
    assume m: "n mod 3 = 0"
    with n(1) have e: "3 + 3 * ?i = n" by arith
    from tr have "atom_placed self coords (3 + 3 * ?i) C_N ?i (entries psi_d ! ?i)" by simp
    then show ?thesis unfolding e by (simp add: atom_bond_def atom_torsion_def m)
  next
    assume m: "n mod 3 = 1"
    with n(1) have e: "3 + 3 * ?i + 1 = n" by arith
    from tr have "atom_placed self coords (3 + 3 * ?i + 1) N_CA ?i (entries omega_d ! ?i)" by simp
    then show ?thesis unfolding e by (simp add: atom_bond_def atom_torsion_def m)
  next
    assume m: "n mod 3 = 2"
    with n(1) have e: "3 + 3 * ?i + 2 = n" by arith
    from tr have "atom_placed self coords (3 + 3 * ?i + 2) CA_C ?i (entries phi_d ! (?i + 1))" by simp
    then show ?thesis unfolding e by (simp add: atom_bond_def atom_torsion_def m)
  qed
qed

lemma placed_atom_distance:
  assumes b: "NERFBuilder phi_d psi_d omega_d l_nca l_cac l_cn a_nca a_cac a_cn init = Inr self"
    and c: "cartesian_coords self = Inr coords"
    and n: "3 \<le> n" "n < length coords" and q: "coords ! n = Some q"
  shows "\<exists>p L. coords ! (n - 1) = Some p \<and>
           get_bond_length self (atom_bond n) (n div 3 - 1) = Inr (Some L) \<and>
           linalg_norm (vsub p q) = \<bar>L\<bar>"
proof -
  from atom_placedD [OF atom_uniform(2) [OF b c n]] obtain ba bl where
    g: "get_bond_length self (atom_bond n) (n div 3 - 1) = Inr bl"
    and p: "coords ! n = place_dihedral (coords ! (n - 3)) (coords ! (n - 2)) (coords ! (n - 1))
              ba bl (atom_torsion phi_d psi_d omega_d n) (use_torch self)"
    by blast
  from p q have "place_dihedral (coords ! (n - 3)) (coords ! (n - 2)) (coords ! (n - 1))
              ba bl (atom_torsion phi_d psi_d omega_d n) (use_torch self) = Some q" by simp
  from place_dihedral_Some_dist [OF this] obtain pc L where
    "coords ! (n - 1) = Some pc" "bl = Some L" "linalg_norm (vsub pc q) = \<bar>L\<bar>" by metis
  with g show ?thesis by blast
qed

lemma seeds_caseD:
  assumes "case xs of [Some a, Some b, Some c] \<Rightarrow> P a b c | _ \<Rightarrow> False"
  shows "\<exists>a b c. xs = [Some a, Some b, Some c] \<and> P a b c"
proof (cases xs)
  case Nil
  with assms show ?thesis by simp
next
  case c1: (Cons x1 xs1)
  show ?thesis
  proof (cases xs1)
    case Nil
    with assms c1 show ?thesis by (cases x1) simp_all
  next
    case c2: (Cons x2 xs2)
    show ?thesis
    proof (cases xs2)
      case Nil
      with assms c1 c2 show ?thesis by (cases x1; cases x2) simp_all
    next
      case c3: (Cons x3 xs3)
      show ?thesis
      proof (cases xs3)
        case Nil
        with assms c1 c2 c3 show ?thesis by (cases x1; cases x2; cases x3) simp_all
      next
        case (Cons x4 xs4)
        with assms c1 c2 c3 show ?thesis by (cases x1; cases x2; cases x3) simp_all
      qed
    qed
  qed
qed

lemma nondegenerate_seeds:
  assumes "nondegenerate self phi_d psi_d omega_d"
  obtains a b c where "init_coords self = [Some a, Some b, Some c]" "non_collinear a b c"
proof -
  from assms have "case init_coords self of
         [Some a, Some b, Some c] \<Rightarrow> non_collinear a b c | _ \<Rightarrow> False"
    by (simp add: nondegenerate_def)
  then have "\<exists>a b c. init_coords self = [Some a, Some b, Some c] \<and> non_collinear a b c"
    by (rule seeds_caseD)
  then show thesis using that by blast
qed

lemma bond_cases: "bond \<in> {C_N, N_CA, CA_C}"
  by (cases bond) simp_all

lemma nondegenerate_tables:
  assumes "nondegenerate self phi_d psi_d omega_d" "i < n_placed phi_d psi_d omega_d"
  obtains L t where "get_bond_length self bond i = Inr (Some L)" "L \<noteq> 0"
    "get_bond_angle self bond i = Inr (Some t)" "sin t \<noteq> 0"
proof -
  from assms have "\<forall>bond \<in> {C_N, N_CA, CA_C}.
             (case get_bond_length self bond i of Inr (Some L) \<Rightarrow> L \<noteq> 0 | _ \<Rightarrow> False) \<and>
             (case get_bond_angle self bond i of Inr (Some t) \<Rightarrow> sin t \<noteq> 0 | _ \<Rightarrow> False)"
    by (simp add: nondegenerate_def)
  from bspec [OF this bond_cases [of bond]] have
    l: "case get_bond_length self bond i of Inr (Some L) \<Rightarrow> L \<noteq> 0 | _ \<Rightarrow> False"
    and a: "case get_bond_angle self bond i of Inr (Some t) \<Rightarrow> sin t \<noteq> 0 | _ \<Rightarrow> False"
    by simp_all
  from l obtain L where "get_bond_length self bond i = Inr (Some L)" "L \<noteq> 0"
    by (auto split: sum.splits option.splits)
  moreover from a obtain t where "get_bond_angle self bond i = Inr (Some t)" "sin t \<noteq> 0"
    by (auto split: sum.splits option.splits)
  ultimately show thesis by (rule that)
qed

lemma nondegenerate_torsion:
  assumes "nondegenerate self phi_d psi_d omega_d" "n div 3 - 1 < n_placed phi_d psi_d omega_d"
  shows "atom_torsion phi_d psi_d omega_d n \<noteq> None"
proof -
  from assms have "entries psi_d ! (n div 3 - 1) \<noteq> None \<and>
          entries omega_d ! (n div 3 - 1) \<noteq> None \<and>
          entries phi_d ! (n div 3 - 1 + 1) \<noteq> None"
    by (simp add: nondegenerate_def)
  then show ?thesis by (simp add: atom_torsion_def Let_def)
qed

lemma nondegenerate_window:
  assumes b: "NERFBuilder phi_d psi_d omega_d l_nca l_cac l_cn a_nca a_cac a_cn init = Inr self"
    and c: "cartesian_coords self = Inr coords"
    and nd: "nondegenerate self phi_d psi_d omega_d"
  shows "k + 2 < length coords \<Longrightarrow>
         \<exists>p q r. coords ! k = Some p \<and> coords ! (k + 1) = Some q \<and> coords ! (k + 2) = Some r \<and>
                 non_collinear p q r"
proof (induction k)
  case 0
  from nondegenerate_seeds [OF nd] obtain a b c where
    s: "init_coords self = [Some a, Some b, Some c]" and nc: "non_collinear a b c" .
  from coords_trace(2) [OF b c] s have t: "take 3 coords = [Some a, Some b, Some c]" by simp
  have "coords ! 0 = take 3 coords ! 0" "coords ! 1 = take 3 coords ! 1"
    "coords ! 2 = take 3 coords ! 2" by simp_all
  then have "coords ! 0 = Some a" "coords ! (0 + 1) = Some b" "coords ! (0 + 2) = Some c"
    unfolding t by (simp_all add: numeral_2_eq_2)
  with nc show ?case by blast
next
  case (Suc k)
  then have "k + 2 < length coords" by simp
  from Suc.IH [OF this] obtain p q r where
    w: "coords ! k = Some p" "coords ! (k + 1) = Some q" "coords ! (k + 2) = Some r"
    and nc: "non_collinear p q r" by blast
  let ?n = "k + 3"
  from Suc.prems have n: "3 \<le> ?n" "?n < length coords" by simp_all
  note u = atom_uniform [OF b c n]
  from nondegenerate_tables [OF nd u(1), of "atom_bond ?n"] obtain L t where
    g: "get_bond_length self (atom_bond ?n) (?n div 3 - 1) = Inr (Some L)" "L \<noteq> 0"
    "get_bond_angle self (atom_bond ?n) (?n div 3 - 1) = Inr (Some t)" "sin t \<noteq> 0" .
  from nondegenerate_torsion [OF nd u(1)] obtain s where
    s: "atom_torsion phi_d psi_d omega_d ?n = Some s" by blast
  from atom_placedD [OF u(2)] g(1,3) s
  have pl: "coords ! ?n = place_dihedral (coords ! (?n - 3)) (coords ! (?n - 2)) (coords ! (?n - 1))
              (Some t) (Some L) (Some s) (use_torch self)"
    by (metis sum.inject(2))
  have idx: "?n - 3 = k" "?n - 2 = k + 1" "?n - 1 = k + 2" by simp_all
  from place_dihedral_non_collinear [OF nc, of t L s "use_torch self"] obtain d where
    d: "place_dihedral (Some p) (Some q) (Some r) (Some t) (Some L) (Some s) (use_torch self) = Some d"
    and "L \<noteq> 0 \<Longrightarrow> sin t \<noteq> 0 \<Longrightarrow> non_collinear q r d" by blast
  with g(2,4) have nc': "non_collinear q r d" by simp
  from pl d have "coords ! ?n = Some d" unfolding idx w by simp
  with w nc' have "coords ! Suc k = Some q \<and> coords ! (Suc k + 1) = Some r \<and>
     coords ! (Suc k + 2) = Some d \<and> non_collinear q r d"
    by (simp add: add.commute numeral_3_eq_3)
  then show ?case by blast
qed

lemma nondegenerate_all_finite:
  assumes b: "NERFBuilder phi_d psi_d omega_d l_nca l_cac l_cn a_nca a_cac a_cn init = Inr self"
    and c: "cartesian_coords self = Inr coords"
    and nd: "nondegenerate self phi_d psi_d omega_d"
  shows "list_all (\<lambda>p. p \<noteq> None) coords"
proof -
  have len: "3 \<le> length coords" by (simp add: coords_trace(1) [OF b c])
  have "coords ! n \<noteq> None" if n: "n < length coords" for n
  proof (cases "n + 2 < length coords")
    case True
    from nondegenerate_window [OF b c nd True] show ?thesis by auto
  next
    case False
    with n len have k: "(n - 2) + 2 < length coords" and e: "(n - 2) + 2 = n \<or> (n - 2) + 1 = n"
      by arith+
    from nondegenerate_window [OF b c nd k] obtain q r where
      w: "coords ! (n - 2 + 1) = Some q" "coords ! (n - 2 + 2) = Some r" by blast
    from e show ?thesis
    proof
      assume e2: "(n - 2) + 2 = n"
      from w(2) have "coords ! n = Some r" unfolding e2 .
      then show ?thesis by simp
    next
      assume e1: "(n - 2) + 1 = n"
      from w(1) have "coords ! n = Some q" unfolding e1 .
      then show ?thesis by simp
    qed
  qed
  then show ?thesis by (simp add: list_all_length)
qed

lemma sin_degrees_nonzero:
  fixes d :: real
  assumes "0 < d" "d < 180"
  shows "sin (d / 180 * pi) \<noteq> 0"
proof -
  from assms have "0 < d / 180 * pi" by simp
  moreover from assms have "d / 180 * pi < 1 * pi"
    by (intro mult_strict_right_mono) simp_all
  ultimately have "0 < sin (d / 180 * pi)" by (intro sin_gt_zero) simp_all
  then show ?thesis by simp
qed

lemma default_builder_nondegenerate:
  assumes b: "NERFBuilder_default phi_d psi_d omega_d = Inr self"
    and t: "\<forall>i < n_placed phi_d psi_d omega_d.
              entries psi_d ! i \<noteq> None \<and> entries omega_d ! i \<noteq> None \<and>
              entries phi_d ! (i + 1) \<noteq> None"
  shows "nondegenerate self phi_d psi_d omega_d"
proof -
  note f = NERFBuilder_fields [OF b [unfolded NERFBuilder_default_def]]
  have gl: "case get_bond_length self bond i of Inr (Some L) \<Rightarrow> L \<noteq> 0 | _ \<Rightarrow> False" for bond i
    by (cases bond)
      (simp_all add: get_bond_length_def f N_CA_LENGTH_def CA_C_LENGTH_def C_N_LENGTH_def)
  have "sin (121 / 180 * pi) \<noteq> 0" "sin (109 / 180 * pi) \<noteq> 0" "sin (115 / 180 * pi) \<noteq> 0"
    by (rule sin_degrees_nonzero, simp, simp)+
  then have ga: "case get_bond_angle self bond i of Inr (Some t) \<Rightarrow> sin t \<noteq> 0 | _ \<Rightarrow> False"
    for bond i
    by (cases bond) (simp_all add: get_bond_angle_def f)
  have s: "case init_coords self of
         [Some a, Some b, Some c] \<Rightarrow> non_collinear a b c | _ \<Rightarrow> False"
    by (simp add: f N_INIT_def CA_INIT_def C_INIT_def non_collinear_def)
  from s t gl ga show ?thesis by (simp add: nondegenerate_def)
qed

text \<open>
  With every default argument and finite torsions in the entries that the loop reads,
  the builder is not degenerate, and each placed atom lies at the default length of its
  bond from the atom before it.
\<close>

lemma default_builder_bond_lengths:
  assumes b: "NERFBuilder_default phi_d psi_d omega_d = Inr self"
    and t: "\<forall>i < n_placed phi_d psi_d omega_d.
              entries psi_d ! i \<noteq> None \<and> entries omega_d ! i \<noteq> None \<and>
              entries phi_d ! (i + 1) \<noteq> None"
    and c: "cartesian_coords self = Inr coords"
    and n: "3 \<le> n" "n < length coords"
  shows "\<exists>p q. coords ! (n - 1) = Some p \<and> coords ! n = Some q \<and>
           linalg_norm (vsub p q) =
             (case atom_bond n of C_N \<Rightarrow> C_N_LENGTH | N_CA \<Rightarrow> N_CA_LENGTH | CA_C \<Rightarrow> CA_C_LENGTH)"
proof -
  note b' = b [unfolded NERFBuilder_default_def]
  note f = NERFBuilder_fields [OF b']
  from nondegenerate_all_finite [OF b' c default_builder_nondegenerate [OF b t]]
  have "\<forall>k<length coords. coords ! k \<noteq> None" by (simp only: list_all_length)
  with n(2) have "coords ! n \<noteq> None" by simp
  then obtain q where q: "coords ! n = Some q" by blast
  from placed_atom_distance [OF b' c n q] obtain p L where
    p: "coords ! (n - 1) = Some p"
    and g: "get_bond_length self (atom_bond n) (n div 3 - 1) = Inr (Some L)"
    and d: "linalg_norm (vsub p q) = \<bar>L\<bar>" by blast
  have "get_bond_length self bond i =
          Inr (Some (case bond of C_N \<Rightarrow> C_N_LENGTH | N_CA \<Rightarrow> N_CA_LENGTH | CA_C \<Rightarrow> CA_C_LENGTH))"
    for bond i
    by (cases bond) (simp_all add: get_bond_length_def f)
  with g have L: "L = (case atom_bond n of C_N \<Rightarrow> C_N_LENGTH | N_CA \<Rightarrow> N_CA_LENGTH | CA_C \<Rightarrow> CA_C_LENGTH)"
    by simp
  have "0 \<le> (case bond of C_N \<Rightarrow> C_N_LENGTH | N_CA \<Rightarrow> N_CA_LENGTH | CA_C \<Rightarrow> CA_C_LENGTH)" for bond
    by (cases bond) (simp_all add: N_CA_LENGTH_def CA_C_LENGTH_def C_N_LENGTH_def)
  with d L have "linalg_norm (vsub p q) =
      (case atom_bond n of C_N \<Rightarrow> C_N_LENGTH | N_CA \<Rightarrow> N_CA_LENGTH | CA_C \<Rightarrow> CA_C_LENGTH)"
    by simp
  with p q show ?thesis by blast
qed

section \<open>The bond length invariant\<close>














section \<open>Centered coordinates\<close>

lemma foldr_vadd_vsub_tuple:
  "foldr vadd (map (\<lambda>p. vsub p (m1, m2, m3)) ps) (0, 0, 0) =
     vsub (foldr vadd ps (0, 0, 0)) (scale (real (length ps)) (m1, m2, m3))"
proof (induction ps)
  case Nil
  show ?case by simp
next
  case (Cons p ps)
  obtain x y z where s: "foldr vadd ps (0, 0, 0) = (x, y, z)" by (cases "foldr vadd ps (0, 0, 0)")
  obtain p1 p2 p3 where p: "p = (p1, p2, p3)" by (cases p)
  show ?case
    unfolding p by (simp add: Cons.IH s algebra_simps)
qed

lemma foldr_vadd_vsub:
  "foldr vadd (map (\<lambda>p. vsub p m) ps) (0, 0, 0) =
     vsub (foldr vadd ps (0, 0, 0)) (scale (real (length ps)) m)"
  by (cases m) (simp only: foldr_vadd_vsub_tuple)

lemma scale_vdiv: "k \<noteq> 0 \<Longrightarrow> scale k (vdiv s k) = s"
  by (cases s) simp

lemma vsub_self: "vsub s s = (0, 0, 0)"
  by (cases s) simp

lemma mean_axis0_finite:
  assumes "ps \<noteq> []" "list_all (\<lambda>p. p \<noteq> None) ps"
  shows "mean_axis0 ps = Some (vdiv (foldr vadd (map the ps) (0, 0, 0)) (real (length ps)))"
  using assms by (simp add: mean_axis0_def)

lemma centered_values:
  assumes ne: "ps \<noteq> []" and fin: "list_all (\<lambda>p. p \<noteq> None) ps"
  shows "map (\<lambda>p. psub p (mean_axis0 ps)) ps =
         map (\<lambda>v. Some (vsub v (vdiv (foldr vadd (map the ps) (0, 0, 0)) (real (length ps)))))
           (map the ps)"
proof -
  have "psub p (mean_axis0 ps) =
        Some (vsub (the p) (vdiv (foldr vadd (map the ps) (0, 0, 0)) (real (length ps))))"
    if "p \<in> set ps" for p
  proof -
    from fin that have "p \<noteq> None" by (simp add: list_all_iff)
    then obtain v where "p = Some v" by blast
    then show ?thesis by (simp add: mean_axis0_finite [OF ne fin])
  qed
  then show ?thesis by (simp add: comp_def)
qed

lemma centered_mean:
  assumes ne: "ps \<noteq> []" and fin: "list_all (\<lambda>p. p \<noteq> None) ps"
  shows "list_all (\<lambda>p. p \<noteq> None) (map (\<lambda>p. psub p (mean_axis0 ps)) ps)"
    and "mean_axis0 (map (\<lambda>p. psub p (mean_axis0 ps)) ps) = Some (0, 0, 0)"
proof -
  let ?vs = "map the ps"
  let ?m = "vdiv (foldr vadd ?vs (0, 0, 0)) (real (length ps))"
  let ?cs = "map (\<lambda>v. Some (vsub v ?m)) ?vs"
  note cv = centered_values [OF ne fin]
  show f: "list_all (\<lambda>p. p \<noteq> None) (map (\<lambda>p. psub p (mean_axis0 ps)) ps)"
    unfolding cv by (simp add: list_all_iff del: not_None_eq)
  from ne have k: "real (length ps) \<noteq> 0" by simp
  have "map the ?cs = map (\<lambda>v. vsub v ?m) ?vs" by (simp add: comp_def)
  then have "foldr vadd (map the ?cs) (0, 0, 0) =
        vsub (foldr vadd ?vs (0, 0, 0)) (scale (real (length ?vs)) ?m)"
    by (simp only: foldr_vadd_vsub)
  also have "\<dots> = (0, 0, 0)" using k by (simp add: scale_vdiv vsub_self)
  finally have s: "foldr vadd (map the ?cs) (0, 0, 0) = (0, 0, 0)" .
  from ne have ne': "?cs \<noteq> []" by simp
  from f have f': "list_all (\<lambda>p. p \<noteq> None) ?cs" unfolding cv .
  show "mean_axis0 (map (\<lambda>p. psub p (mean_axis0 ps)) ps) = Some (0, 0, 0)"
    unfolding cv mean_axis0_finite [OF ne' f'] s by simp
qed

text \<open>
  Claim C9, as the code has it. When the coordinates of a builder hold no NaN, the
  centered coordinates are the coordinates minus their mean along axis 0, none of them
  is NaN and their mean is the zero vector.
\<close>

theorem centered_mean_zero:
  assumes "NERFBuilder phi_dihedrals psi_dihedrals omega_dihedrals
             bond_len_n_ca bond_len_ca_c bond_len_c_n
             bond_angle_n_ca bond_angle_ca_c bond_angle_c_n init = Inr self"
    and "cartesian_coords self = Inr coords"
    and "list_all (\<lambda>p. p \<noteq> None) coords"
  shows "\<exists>centered.
           centered_cartesian_coords self = Inr centered \<and>
           centered = map (\<lambda>p. psub p (mean_axis0 coords)) coords \<and>
           list_all (\<lambda>p. p \<noteq> None) centered \<and>
           mean_axis0 centered = Some (0, 0, 0)"
proof -
  from coords_trace(1) [OF assms(1,2)] have ne: "coords \<noteq> []" by auto
  have "centered_cartesian_coords self = Inr (map (\<lambda>p. psub p (mean_axis0 coords)) coords)"
    by (simp add: centered_cartesian_coords_def assms(2))
  with centered_mean [OF ne assms(3)] show ?thesis by blast
qed

text \<open>
  The claim C9 as stated fails on degenerate geometry: with the collinear initial
  coordinates \<open>(0, 0, 0)\<close>, \<open>(1, 0, 0)\<close>, \<open>(2, 0, 0)\<close> and two residues, the placed atoms
  are NaN, and so are the mean, the centered coordinates and their mean.
\<close>

theorem centered_mean_nan:
  "(case NERFBuilder (NpArray [None, Some 0]) (NpArray [Some 0, None]) (NpArray [Some 0, None])
           (FloatVal (Some 1)) (FloatVal (Some 1)) (FloatVal (Some 1))
           (FloatVal (Some (pi / 2))) (FloatVal (Some (pi / 2))) (FloatVal (Some (pi / 2)))
           [[0, 0, 0], [1, 0, 0], [2, 0, 0]] of
      Inl e \<Rightarrow> Inl e
    | Inr self \<Rightarrow> map_sum id mean_axis0 (centered_cartesian_coords self)) = Inr None"
proof -
  let ?p = "NpArray [None, Some 0]" and ?q = "NpArray [Some 0, None]"
  obtain self where b: "NERFBuilder ?p ?q ?q
        (FloatVal (Some 1)) (FloatVal (Some 1)) (FloatVal (Some 1))
        (FloatVal (Some (pi / 2))) (FloatVal (Some (pi / 2))) (FloatVal (Some (pi / 2)))
        [[0, 0, 0], [1, 0, 0], [2, 0, 0]] = Inr self"
    by (simp add: NERFBuilder_def)
  note f = NERFBuilder_fields [OF b]
  have gl: "get_bond_length self bond 0 = Inr (Some 1)" for bond
    by (cases bond) (simp_all add: get_bond_length_def f)
  have ga: "get_bond_angle self bond 0 = Inr (Some (pi / 2))" for bond
    by (cases bond) (simp_all add: get_bond_angle_def f)
  have d1: "place_dihedral (Some (0, 0, 0)) (Some (1, 0, 0)) (Some (2, 0, 0))
              (Some (pi / 2)) (Some 1) (Some 0) mode = None" for mode
    by (simp add: place_dihedral_def unit_vec_def linalg_norm_def)
  have d2: "place_dihedral a b None ba bl ta mode = None" for a b ba bl ta mode
    by (simp add: place_dihedral_def split: option.splits)
  have c: "cartesian_coords self =
             Inr [Some (0, 0, 0), Some (1, 0, 0), Some (2, 0, 0), None, None, None]"
    unfolding cartesian_coords_constructed [OF b]
    by (simp add: f gl ga d1 d2)
  have "map_sum id mean_axis0 (centered_cartesian_coords self) = Inr None"
    by (simp add: centered_cartesian_coords_def c mean_axis0_def)
  with b show ?thesis by simp
qed

lemma unit_builder:
  obtains self coords where
    "NERFBuilder (NpArray [None, Some 0]) (NpArray [Some 0, None]) (NpArray [Some 0, None])
        (FloatVal (Some 1)) (FloatVal (Some 1)) (FloatVal (Some 1))
        (FloatVal (Some (pi / 2))) (FloatVal (Some (pi / 2))) (FloatVal (Some (pi / 2)))
        [[1, 0, 0], [0, 0, 0], [0, 1, 0]] = Inr self"
    "cartesian_coords self = Inr coords"
    "list_all (\<lambda>p. p \<noteq> None) coords"
proof -
  let ?p = "NpArray [None, Some 0]" and ?q = "NpArray [Some 0, None]"
  obtain self where b: "NERFBuilder ?p ?q ?q
        (FloatVal (Some 1)) (FloatVal (Some 1)) (FloatVal (Some 1))
        (FloatVal (Some (pi / 2))) (FloatVal (Some (pi / 2))) (FloatVal (Some (pi / 2)))
        [[1, 0, 0], [0, 0, 0], [0, 1, 0]] = Inr self"
    by (simp add: NERFBuilder_def)
  note f = NERFBuilder_fields [OF b]
  have m: "n_placed ?p ?q ?q = 1" by (simp add: n_placed_def)
  have t: "tables_cover self (n_placed ?p ?q ?q)"
    by (simp add: tables_cover_def covers_def f)
  from cartesian_coords_total [OF b _ _ _ t]
  obtain coords where c: "cartesian_coords self = Inr coords" by auto
  have gl: "get_bond_length self bond 0 = Inr (Some 1)" for bond
    by (cases bond) (simp_all add: get_bond_length_def f)
  have ga: "get_bond_angle self bond 0 = Inr (Some (pi / 2))" for bond
    by (cases bond) (simp_all add: get_bond_angle_def f)
  have nd: "nondegenerate self ?p ?q ?q"
    by (simp add: nondegenerate_def m f gl ga non_collinear_def)
  from b c nondegenerate_all_finite [OF b c nd] show thesis by (rule that)
qed

theorem centered_mean_zero_witness:
  "\<exists>self coords centered.
      NERFBuilder (NpArray [None, Some 0]) (NpArray [Some 0, None]) (NpArray [Some 0, None])
        (FloatVal (Some 1)) (FloatVal (Some 1)) (FloatVal (Some 1))
        (FloatVal (Some (pi / 2))) (FloatVal (Some (pi / 2))) (FloatVal (Some (pi / 2)))
        [[1, 0, 0], [0, 0, 0], [0, 1, 0]] = Inr self \<and>
      cartesian_coords self = Inr coords \<and>
      list_all (\<lambda>p. p \<noteq> None) coords \<and>
      centered_cartesian_coords self = Inr centered \<and>
      mean_axis0 centered = Some (0, 0, 0)"
proof -
  from unit_builder obtain self coords where
    b: "NERFBuilder (NpArray [None, Some 0]) (NpArray [Some 0, None]) (NpArray [Some 0, None])
        (FloatVal (Some 1)) (FloatVal (Some 1)) (FloatVal (Some 1))
        (FloatVal (Some (pi / 2))) (FloatVal (Some (pi / 2))) (FloatVal (Some (pi / 2)))
        [[1, 0, 0], [0, 0, 0], [0, 1, 0]] = Inr self"
    and c: "cartesian_coords self = Inr coords"
    and fin: "list_all (\<lambda>p. p \<noteq> None) coords" .
  from centered_mean_zero [OF b c fin] obtain centered where
    "centered_cartesian_coords self = Inr centered" "mean_axis0 centered = Some (0, 0, 0)"
    by blast
  with b c fin show ?thesis by blast
qed

section \<open>The table of internal coordinates\<close>

lemma nan_to_num_value: "nan_to_num v = Some (case v of None \<Rightarrow> 0 | Some x \<Rightarrow> x)"
  by (cases v) (simp_all add: nan_to_num_def)

lemma residue_values_radians:
  assumes "residue_values distances angles True ric = Inr row"
  shows "row = map (get_length ric) distances @
               map (\<lambda>a. map_option (\<lambda>v. v / 180 * pi) (get_angle ric a)) angles"
  using assms by (simp add: residue_values_def Let_def comp_def split: if_splits)

lemma collect_values_radians:
  "collect_values distances angles True rics = Inr rows \<Longrightarrow>
   rows = map (\<lambda>ric. map (get_length ric) distances @
                      map (\<lambda>a. map_option (\<lambda>v. v / 180 * pi) (get_angle ric a)) angles) rics"
proof (induction rics arbitrary: rows)
  case Nil
  then show ?case by simp
next
  case (Cons ric rics)
  from Cons.prems obtain row rest where
    r: "residue_values distances angles True ric = Inr row"
    and c: "collect_values distances angles True rics = Inr rest"
    and e: "rows = row # rest"
    by (auto split: sum.splits)
  from residue_values_radians [OF r] Cons.IH [OF c] e show ?case by simp
qed

lemma table_row:
  "map nan_to_num (map (get_length ric) distances @
                   map (\<lambda>a. map_option (\<lambda>v. v / 180 * pi) (get_angle ric a)) angles) =
   map (\<lambda>d. Some (case get_length ric d of None \<Rightarrow> 0 | Some v \<Rightarrow> v)) distances @
   map (\<lambda>a. Some (case get_angle ric a of None \<Rightarrow> 0 | Some v \<Rightarrow> v / 180 * pi)) angles"
proof -
  have "nan_to_num (map_option (\<lambda>v. v / 180 * pi) w) =
        Some (case w of None \<Rightarrow> 0 | Some v \<Rightarrow> v / 180 * pi)" for w :: pyfloat
    by (cases w) (simp_all add: nan_to_num_def)
  then show ?thesis by (simp add: nan_to_num_value comp_def)
qed

text \<open>
  Claim C8, as the code has it. For a structure of a single chain that the function
  accepts, with \<open>use_radians\<close> set, the table has one row for each entry of
  \<open>ordered_aa_ic_list\<close>: the distances, then the angles in radians (degrees times
  \<open>\<pi> / 180\<close>); an undefined distance or angle is 0.0 in the table, and no entry of the
  table is NaN.
\<close>

theorem canonical_table_values:
  assumes "canonical_distances_and_dihedrals s_chains distances angles True = Inr (Some table)"
  shows "\<exists>chain.
           s_chains = [chain] \<and>
           columns table = distances @ angles \<and>
           frame_rows table =
             map (\<lambda>ric.
                    map (\<lambda>d. Some (case get_length ric d of None \<Rightarrow> 0 | Some v \<Rightarrow> v)) distances @
                    map (\<lambda>a. Some (case get_angle ric a of None \<Rightarrow> 0 | Some v \<Rightarrow> v / 180 * pi))
                      angles)
                 (ordered_aa_ic_list chain) \<and>
           list_all (list_all (\<lambda>v. v \<noteq> None)) (frame_rows table)"
proof -
  from assms have one: "length s_chains = 1"
    by (cases s_chains) (simp_all add: canonical_distances_and_dihedrals_def split: if_splits)
  then obtain chain where s: "s_chains = [chain]"
    by (cases s_chains) simp_all
  from assms obtain rows where
    c: "collect_values distances angles True (ordered_aa_ic_list chain) = Inr rows"
    and t: "table = \<lparr>columns = distances @ angles, frame_rows = map (map nan_to_num) rows\<rparr>"
    unfolding s canonical_distances_and_dihedrals_def
    by (auto simp: Let_def split: if_splits sum.splits)
  have r: "frame_rows table =
             map (\<lambda>ric.
                    map (\<lambda>d. Some (case get_length ric d of None \<Rightarrow> 0 | Some v \<Rightarrow> v)) distances @
                    map (\<lambda>a. Some (case get_angle ric a of None \<Rightarrow> 0 | Some v \<Rightarrow> v / 180 * pi))
                      angles)
                 (ordered_aa_ic_list chain)"
    unfolding t collect_values_radians [OF c]
    by (simp only: data_frame.select_convs list.map_comp comp_def table_row)
  have "list_all (list_all (\<lambda>v. v \<noteq> None)) (frame_rows table)"
    unfolding r by (auto simp: list_all_iff)
  with s t r show ?thesis by simp
qed

text \<open>
  The claim C8 as stated fails: for a chain of one residue, whose \<open>phi\<close>, \<open>psi\<close>,
  \<open>omega\<close> and \<open>0C:1N\<close> are undefined, the table holds 0.0 in these four places, not NaN.
\<close>

theorem canonical_table_no_nan:
  "canonical_distances_and_dihedrals
     [\<lparr>resnames = [''ALA''], rebuild_pass = True,
       ordered_aa_ic_list = [\<lparr>ic_lengths = [], ic_angles = [(''tau'', 90)]\<rparr>]\<rparr>]
     [''0C:1N''] [''phi'', ''psi'', ''omega'', ''tau''] True =
   Inr (Some \<lparr>columns = [''0C:1N'', ''phi'', ''psi'', ''omega'', ''tau''],
              frame_rows = [[Some 0, Some 0, Some 0, Some 0, Some (pi / 2)]]\<rparr>)"
  by (simp add: canonical_distances_and_dihedrals_def residue_values_def get_length_def
      get_angle_def nan_to_num_def Let_def)

theorem canonical_table_values_witness:
  "\<exists>table.
     canonical_distances_and_dihedrals
       [\<lparr>resnames = [''THR'', ''HOH''], rebuild_pass = True,
         ordered_aa_ic_list = [\<lparr>ic_lengths = [(''0C:1N'', 133 / 100)],
                                 ic_angles = [(''psi'', 180), (''omega'', - 90), (''tau'', 90)]\<rparr>]\<rparr>]
       [''0C:1N''] [''phi'', ''psi'', ''omega'', ''tau''] True = Inr (Some table) \<and>
     frame_rows table = [[Some (133 / 100), Some 0, Some pi, Some (- pi / 2), Some (pi / 2)]]"
proof -
  let ?s = "[\<lparr>resnames = [''THR'', ''HOH''], rebuild_pass = True,
         ordered_aa_ic_list = [\<lparr>ic_lengths = [(''0C:1N'', 133 / 100)],
                                 ic_angles = [(''psi'', 180), (''omega'', - 90), (''tau'', 90)]\<rparr>]\<rparr>]"
  have "- (pi / 2) \<le> pi" using pi_gt_zero by linarith
  then obtain table where t: "canonical_distances_and_dihedrals ?s
       [''0C:1N''] [''phi'', ''psi'', ''omega'', ''tau''] True = Inr (Some table)"
    by (simp add: canonical_distances_and_dihedrals_def residue_values_def get_length_def
      get_angle_def nan_to_num_def Let_def)
  from canonical_table_values [OF t]
  have "frame_rows table = [[Some (133 / 100), Some 0, Some pi, Some (- pi / 2), Some (pi / 2)]]"
    by (simp add: get_length_def get_angle_def)
  with t show ?thesis by blast
qed

section \<open>The sampling step\<close>

lemma length_unique: "length (unique t) = card (set t)"
  by (simp add: unique_def length_remdups_card_conv)

text \<open>
  Claim C10. The result of \<open>p_sample\<close> does not depend on its argument \<open>t_index\<close>:
  two calls that differ in it alone return the same tensor or raise the same error,
  whatever the tensor library computes. A time vector \<open>t\<close> whose entries are not all the
  same value (or that has no entry) fails the assertion.
\<close>

theorem p_sample_ignores_t_index:
  "p_sample T compute_alphas model x t seq_lens t_index betas randn =
     p_sample T compute_alphas model x t seq_lens t_index' betas randn \<and>
   (card (set t) \<noteq> 1 \<longrightarrow>
      p_sample T compute_alphas model x t seq_lens t_index betas randn = Inl AssertionError)"
proof
  show "p_sample T compute_alphas model x t seq_lens t_index betas randn =
     p_sample T compute_alphas model x t seq_lens t_index' betas randn"
    by (simp add: p_sample_def)
  show "card (set t) \<noteq> 1 \<longrightarrow>
      p_sample T compute_alphas model x t seq_lens t_index betas randn = Inl AssertionError"
    by (simp add: p_sample_def Let_def length_unique)
qed

theorem p_sample_ignores_t_index_witness:
  "card (set [1, 2 :: int]) \<noteq> 1 \<and>
   p_sample
     \<lparr>torch_sqrt = sqrt, torch_rdiv = (\<lambda>r x. r / x), torch_getitem = (\<lambda>x i. Inr x),
      torch_sub = (-), torch_mul = (*), torch_div = (/), torch_add = (+),
      torch_shape = (\<lambda>x. []), torch_zeros = (\<lambda>s. 0), torch_setitem = (\<lambda>m i l v. Inr m)\<rparr>
     (\<lambda>b. \<lparr>alphas = 1 - b, sqrt_one_minus_alphas_cumprod = sqrt b, posterior_variance = b\<rparr>)
     (\<lambda>x t m. x) 3 [1, 2] [] 5 (1 / 2) 1 = Inl AssertionError \<and>
   p_sample
     \<lparr>torch_sqrt = sqrt, torch_rdiv = (\<lambda>r x. r / x), torch_getitem = (\<lambda>x i. Inr x),
      torch_sub = (-), torch_mul = (*), torch_div = (/), torch_add = (+),
      torch_shape = (\<lambda>x. []), torch_zeros = (\<lambda>s. 0), torch_setitem = (\<lambda>m i l v. Inr m)\<rparr>
     (\<lambda>b. \<lparr>alphas = 1 - b, sqrt_one_minus_alphas_cumprod = sqrt b, posterior_variance = b\<rparr>)
     (\<lambda>x t m. x) 3 [2, 2] [] 5 (1 / 2) 1 =
   p_sample
     \<lparr>torch_sqrt = sqrt, torch_rdiv = (\<lambda>r x. r / x), torch_getitem = (\<lambda>x i. Inr x),
      torch_sub = (-), torch_mul = (*), torch_div = (/), torch_add = (+),
      torch_shape = (\<lambda>x. []), torch_zeros = (\<lambda>s. 0), torch_setitem = (\<lambda>m i l v. Inr m)\<rparr>
     (\<lambda>b. \<lparr>alphas = 1 - b, sqrt_one_minus_alphas_cumprod = sqrt b, posterior_variance = b\<rparr>)
     (\<lambda>x t m. x) 3 [2, 2] [] 0 (1 / 2) 1"
proof -
  let ?T = "\<lparr>torch_sqrt = sqrt, torch_rdiv = (\<lambda>r x. r / x), torch_getitem = (\<lambda>x i. Inr x),
      torch_sub = (-), torch_mul = (*), torch_div = (/), torch_add = (+),
      torch_shape = (\<lambda>x. []), torch_zeros = (\<lambda>s. 0), torch_setitem = (\<lambda>m i l v. Inr m)\<rparr>
      :: real torch"
  let ?ca = "\<lambda>b :: real. \<lparr>alphas = 1 - b, sqrt_one_minus_alphas_cumprod = sqrt b,
      posterior_variance = b\<rparr>"
  let ?model = "\<lambda>(x :: real) (t :: int list) (m :: real). x"
  have c: "card (set [1, 2 :: int]) \<noteq> 1" by simp
  from p_sample_ignores_t_index [of ?T ?ca ?model 3 "[1, 2]" "[]" 5 "1 / 2" 1 5] c
  have a: "p_sample ?T ?ca ?model 3 [1, 2] [] 5 (1 / 2) 1 = Inl AssertionError" by blast
  from p_sample_ignores_t_index [of ?T ?ca ?model 3 "[2, 2]" "[]" 5 "1 / 2" 1 0]
  have e: "p_sample ?T ?ca ?model 3 [2, 2] [] 5 (1 / 2) 1 =
           p_sample ?T ?ca ?model 3 [2, 2] [] 0 (1 / 2) 1" by blast
  from c a e show ?thesis by blast
qed

end
